theory Spec2Isabelle
  imports Main "HOL-Library.Multiset"
begin


section \<open>Data model\<close>

text \<open>
  The program is a Go script in two variants: \<open>example.go\<close>, which runs every step in
  program order, and a later revision in which storage-account creation runs in a
  goroutine joined by a wait group and the error handler attempts a resource-group
  deletion before exiting. Functions that differ between the two take the variant as
  their first argument; all others are shared.
\<close>

datatype variant = Sequential | Hardened

text \<open>
  A Go pointer field is an option: \<open>None\<close> is \<open>nil\<close>. The SDK's resource types are
  modelled with the fields and the nesting that the composite literals and the
  selectors of the source show; embedded pointer structs (the \<open>...PropertiesFormat\<close>
  types) are pointer fields of their own, since reading or writing one of their
  promoted fields through \<open>nil\<close> panics.
\<close>

type_synonym 'a ptr = "'a option"

record ResourceGroup =
  rg_Location :: "string ptr"

record VirtualNetwork =
  vnet_Location :: "string ptr"
  vnet_AddressPrefixes :: "string list ptr"

record SubnetPropertiesFormat =
  AddressPrefix :: "string ptr"

record Subnet =
  subnet_ID :: "string ptr"
  subnet_Name :: "string ptr"
  subnet_props :: "SubnetPropertiesFormat ptr"

record PublicIPAddressDNSSettings =
  DomainNameLabel :: "string ptr"

record PublicIPAddressPropertiesFormat =
  DNSSettings :: "PublicIPAddressDNSSettings ptr"

record PublicIPAddress =
  pip_ID :: "string ptr"
  pip_Name :: "string ptr"
  pip_Location :: "string ptr"
  pip_props :: "PublicIPAddressPropertiesFormat ptr"

record InterfaceIPConfigurationPropertiesFormat =
  PrivateIPAddress :: "string ptr"
  PrivateIPAllocationMethod :: string
  ipc_Subnet :: "Subnet ptr"
  ipc_Primary :: "bool ptr"
  ipc_PublicIPAddress :: "PublicIPAddress ptr"

record InterfaceIPConfiguration =
  ipc_Name :: "string ptr"
  ipc_props :: "InterfaceIPConfigurationPropertiesFormat ptr"

record InterfacePropertiesFormat =
  EnableIPForwarding :: "bool ptr"
  MacAddress :: "string ptr"
  IPConfigurations :: "InterfaceIPConfiguration list ptr"

record Interface =
  nic_ID :: "string ptr"
  nic_Name :: "string ptr"
  nic_Location :: "string ptr"
  nic_props :: "InterfacePropertiesFormat ptr"

record NetworkInterfaceReferenceProperties =
  nir_Primary :: "bool ptr"

record NetworkInterfaceReference =
  nir_ID :: "string ptr"
  nir_props :: "NetworkInterfaceReferenceProperties ptr"

record AccountCreateParameters =
  acc_SkuName :: string
  acc_Location :: "string ptr"

text \<open>
  The virtual machine literal of \<open>createVM\<close> is built from constants only and none of
  its inner pointers is ever read back, so its nested profiles are flattened here.
\<close>

record VirtualMachine =
  vm_Location :: "string ptr"
  vm_VMSize :: string
  vm_Publisher :: "string ptr"
  vm_Offer :: "string ptr"
  vm_Sku :: "string ptr"
  vm_Version :: "string ptr"
  vm_OsDiskName :: "string ptr"
  vm_VhdURI :: "string ptr"
  vm_CreateOption :: string
  vm_ComputerName :: "string ptr"
  vm_AdminUsername :: "string ptr"
  vm_AdminPassword :: "string ptr"
  vm_NetworkInterfaces :: "NetworkInterfaceReference list ptr"

subsection \<open>Constants of the source\<close>

definition westUS :: string where "westUS = ''westus''"
definition groupName :: string where "groupName = ''your-azure-sample-group''"
definition vNetName :: string where "vNetName = ''vNet''"
definition nicNameFrontEnd :: string where "nicNameFrontEnd = ''nic1''"
definition nicNameMidTier :: string where "nicNameMidTier = ''nic2''"
definition nicNameBackEnd :: string where "nicNameBackEnd = ''nic3''"
definition accountName :: string where "accountName = ''golangrocksonazure''"
definition vmName :: string where "vmName = ''vm''"

text \<open>\<open>azure.PublicCloud.StorageEndpointSuffix\<close>, a constant of the SDK.\<close>

definition storageEndpointSuffix :: string where
  "storageEndpointSuffix = ''core.windows.net''"

section \<open>The remote management API and the process\<close>

text \<open>
  Every method of an SDK client that the script calls is one constructor; its
  arguments are those of the call, without the trailing cancel channel.
\<close>

datatype call =
    Groups_CreateOrUpdate string ResourceGroup
  | Groups_Delete string
  | VirtualNetworks_CreateOrUpdate string string VirtualNetwork
  | Subnets_CreateOrUpdate string string string Subnet
  | Subnets_Get string string string string
  | PublicIPAddresses_CreateOrUpdate string string PublicIPAddress
  | PublicIPAddresses_Get string string string
  | Interfaces_CreateOrUpdate string string Interface
  | Interfaces_Get string string string
  | Interfaces_List string
  | Interfaces_Delete string string
  | Accounts_Create string string AccountCreateParameters
  | VirtualMachines_CreateOrUpdate string string VirtualMachine
  | VirtualMachines_Delete string string

text \<open>
  An event is a call that was issued together with the error it returned to the
  script (\<open>None\<close> is a \<open>nil\<close> error). The one call whose result the script never reads,
  the resource-group deletion inside the hardened error handler, is recorded with
  \<open>None\<close>.
\<close>

type_synonym event = "call \<times> string option"

text \<open>
  The remote service is a substitutable collaborator: what a call returns may depend
  on the call and on everything issued before it.
\<close>

record remote =
  err_of :: "event list \<Rightarrow> call \<Rightarrow> string option"
  subnet_of :: "event list \<Rightarrow> call \<Rightarrow> Subnet"
  pip_of :: "event list \<Rightarrow> call \<Rightarrow> PublicIPAddress"
  nic_of :: "event list \<Rightarrow> call \<Rightarrow> Interface"
  nics_of :: "event list \<Rightarrow> call \<Rightarrow> Interface list ptr"

datatype task = CreateStorageAccountTask

text \<open>
  The state of the process and of its surroundings. \<open>history\<close> and \<open>stdout\<close> grow at
  the end. \<open>pending\<close> holds the goroutines started and not yet run, \<open>delay\<close> how many
  further remote calls the main goroutine issues before the scheduler runs the next
  pending one, \<open>wg\<close> the counter of the wait group.
\<close>

record world =
  api :: remote
  environ :: "string \<Rightarrow> string"
  oauth_err :: "string \<Rightarrow> string option"
  token_err :: "string \<Rightarrow> string \<Rightarrow> string option"
  history :: "event list"
  stdout :: "string list"
  wg :: nat
  pending :: "task list"
  delay :: nat

text \<open>
  A computation either returns, or the process exits with a status, or it panics
  (a nil dereference, an index out of range, a negative wait-group counter), or it
  blocks forever.
\<close>

datatype 'a result = Ok 'a | Exited nat | Panicked | Blocked

type_synonym 'a prog = "world \<Rightarrow> 'a result \<times> world"

definition ret :: "'a \<Rightarrow> 'a prog" where
  "ret a = (\<lambda>w. (Ok a, w))"

definition bind :: "'a prog \<Rightarrow> ('a \<Rightarrow> 'b prog) \<Rightarrow> 'b prog" where
  "bind p f = (\<lambda>w. case p w of
      (Ok a, w') \<Rightarrow> f a w'
    | (Exited n, w') \<Rightarrow> (Exited n, w')
    | (Panicked, w') \<Rightarrow> (Panicked, w')
    | (Blocked, w') \<Rightarrow> (Blocked, w'))"

definition seq :: "unit prog \<Rightarrow> 'b prog \<Rightarrow> 'b prog" where
  "seq p q = bind p (\<lambda>_. q)"

definition panic :: "'a prog" where
  "panic = (\<lambda>w. (Panicked, w))"

definition os_Exit :: "nat \<Rightarrow> 'a prog" where
  "os_Exit n = (\<lambda>w. (Exited n, w))"

definition fmt_Print :: "string \<Rightarrow> unit prog" where
  "fmt_Print s = (\<lambda>w. (Ok (), w\<lparr>stdout := stdout w @ [s]\<rparr>))"

text \<open>\<open>*p\<close>: dereferencing \<open>nil\<close> panics.\<close>

definition deref :: "'a ptr \<Rightarrow> 'a prog" where
  "deref p = (case p of None \<Rightarrow> panic | Some x \<Rightarrow> ret x)"

text \<open>\<open>xs[i]\<close>: an index out of range panics.\<close>

definition index :: "'a list \<Rightarrow> nat \<Rightarrow> 'a prog" where
  "index xs i = (if i < length xs then ret (xs ! i) else panic)"

text \<open>
  \<open>for i, x := range xs\<close> with the variables the body assigns carried as \<open>s\<close>.
\<close>

primrec for_range :: "(nat \<Rightarrow> 'a \<Rightarrow> 's \<Rightarrow> 's prog) \<Rightarrow> 'a list \<Rightarrow> nat \<Rightarrow> 's \<Rightarrow> 's prog" where
  "for_range body [] = (\<lambda>i s. ret s)"
| "for_range body (x # xs) = (\<lambda>i s. bind (body i x s) (for_range body xs (Suc i)))"

subsection \<open>Formatting\<close>

definition nl :: string where "nl = [CHR 0x0A]"
definition tab :: string where "tab = [CHR 0x09]"

text \<open>\<open>%v\<close> of a non-negative \<open>int\<close>: its decimal digits.\<close>

fun show_nat :: "nat \<Rightarrow> string" where
  "show_nat n = (if n < 10 then [''0123456789'' ! n]
                 else show_nat (n div 10) @ [''0123456789'' ! (n mod 10)])"

declare show_nat.simps [simp del]

text \<open>\<open>%t\<close> of a \<open>bool\<close>.\<close>

definition show_bool :: "bool \<Rightarrow> string" where
  "show_bool b = (if b then ''true'' else ''false'')"

definition sq :: string where "sq = [CHR 0x27]"

subsection \<open>Remote calls, the error handler and the goroutine\<close>

text \<open>Issuing a call appends it, with the error it returns, to the history.\<close>

definition issue :: "call \<Rightarrow> string option prog" where
  "issue c = (\<lambda>w.
     let e = err_of (api w) (history w) c
     in (Ok e, w\<lparr>history := history w @ [(c, e)]\<rparr>))"

text \<open>A call that also returns a value, selected from the remote by \<open>sel\<close>.\<close>

definition issue_get :: "(remote \<Rightarrow> event list \<Rightarrow> call \<Rightarrow> 'a) \<Rightarrow> call \<Rightarrow> ('a \<times> string option) prog" where
  "issue_get sel c = (\<lambda>w.
     let e = err_of (api w) (history w) c
     in (Ok (sel (api w) (history w) c, e), w\<lparr>history := history w @ [(c, e)]\<rparr>))"

text \<open>A call whose result channels are dropped: issued, never awaited.\<close>

definition fire :: "call \<Rightarrow> unit prog" where
  "fire c = (\<lambda>w. (Ok (), w\<lparr>history := history w @ [(c, None)]\<rparr>))"

text \<open>
  \<open>onErrorFail\<close> prints a failure message and exits the program if \<open>err\<close> is not nil.
  The hardened variant calls \<open>groupClient.Delete\<close> between the two and ignores what
  it returns.
\<close>

definition onErrorFail :: "variant \<Rightarrow> string option \<Rightarrow> string \<Rightarrow> unit prog" where
  "onErrorFail v err message =
     (case err of
        None \<Rightarrow> ret ()
      | Some e \<Rightarrow>
          seq (fmt_Print (message @ '': '' @ e @ nl))
            (case v of
               Sequential \<Rightarrow> os_Exit 1
             | Hardened \<Rightarrow> seq (fire (Groups_Delete groupName)) (os_Exit 1)))"

definition wg_Add :: "nat \<Rightarrow> unit prog" where
  "wg_Add n = (\<lambda>w. (Ok (), w\<lparr>wg := wg w + n\<rparr>))"

text \<open>\<open>wg.Done()\<close> on a zero counter panics (negative WaitGroup counter).\<close>

definition wg_Done :: "unit prog" where
  "wg_Done = (\<lambda>w. if wg w = 0 then (Panicked, w) else (Ok (), w\<lparr>wg := wg w - 1\<rparr>))"

definition go :: "task \<Rightarrow> unit prog" where
  "go t = (\<lambda>w. (Ok (), w\<lparr>pending := pending w @ [t]\<rparr>))"

text \<open>
  \<open>createStorageAccount\<close>. In the hardened variant this is the body of the goroutine:
  it signals the wait group after the account was created. It issues its call
  directly, since the scheduling points below are the calls of the main goroutine,
  and the sequential variant starts no goroutine.
\<close>

definition storageAccount :: AccountCreateParameters where
  "storageAccount = \<lparr>acc_SkuName = ''Standard_LRS'', acc_Location = Some westUS\<rparr>"

definition createStorageAccount :: "variant \<Rightarrow> unit prog" where
  "createStorageAccount v =
     (case v of
        Sequential \<Rightarrow>
          seq (fmt_Print (''Create storage account'' @ nl))
            (bind (issue (Accounts_Create groupName accountName storageAccount))
               (\<lambda>err. onErrorFail Sequential err ''Create failed''))
      | Hardened \<Rightarrow>
          seq (fmt_Print (''Starting to create storage account...'' @ nl))
            (bind (issue (Accounts_Create groupName accountName storageAccount))
               (\<lambda>err. seq (onErrorFail Hardened err ''Create failed'')
                  (seq (fmt_Print (''... storage account created'' @ nl)) wg_Done))))"

definition run_task :: "task \<Rightarrow> unit prog" where
  "run_task t = (case t of CreateStorageAccountTask \<Rightarrow> createStorageAccount Hardened)"

text \<open>
  The scheduler. A goroutine runs as one step, at a scheduling point of the main
  goroutine: before a remote call of the main goroutine, once \<open>delay\<close> such points
  have passed, or at the latest when the main goroutine waits for the wait group.
  A goroutine that exits the process ends the whole computation.
\<close>

definition yield :: "unit prog" where
  "yield = (\<lambda>w. case pending w of
       [] \<Rightarrow> (Ok (), w)
     | t # ts \<Rightarrow>
         if delay w = 0 then run_task t (w\<lparr>pending := ts\<rparr>)
         else (Ok (), w\<lparr>delay := delay w - 1\<rparr>))"

primrec run_all :: "task list \<Rightarrow> unit prog" where
  "run_all [] = ret ()"
| "run_all (t # ts) = seq (run_task t) (run_all ts)"

text \<open>
  \<open>wg.Wait()\<close> returns once the counter is zero. If it is not, the main goroutine is
  suspended and the pending goroutines run; if the counter is still positive when
  none is left, the process is blocked forever.
\<close>

definition wg_Wait :: "unit prog" where
  "wg_Wait = (\<lambda>w.
     if wg w = 0 then (Ok (), w)
     else bind (run_all (pending w))
            (\<lambda>_ w'. if wg w' = 0 then (Ok (), w') else (Blocked, w'))
            (w\<lparr>pending := []\<rparr>))"

definition call :: "call \<Rightarrow> string option prog" where
  "call c = seq yield (issue c)"

definition call_get :: "(remote \<Rightarrow> event list \<Rightarrow> call \<Rightarrow> 'a) \<Rightarrow> call \<Rightarrow> ('a \<times> string option) prog" where
  "call_get sel c = seq yield (issue_get sel c)"

text \<open>\<open>fmt.Scanln(&input)\<close>: waits for a line; what was read is never used.\<close>

definition fmt_Scanln :: "unit prog" where
  "fmt_Scanln = ret ()"

section \<open>The operations of the script\<close>

definition createResourceGroup :: "variant \<Rightarrow> unit prog" where
  "createResourceGroup v =
     seq (fmt_Print (''Create resource group'' @ nl))
       (bind (call (Groups_CreateOrUpdate groupName \<lparr>rg_Location = Some westUS\<rparr>))
          (\<lambda>err. onErrorFail v err ''CreateOrUpdate failed''))"

definition createVirtualNetwork :: "variant \<Rightarrow> unit prog" where
  "createVirtualNetwork v =
     seq (fmt_Print (''Create virtual network'' @ nl))
       (bind (call (VirtualNetworks_CreateOrUpdate groupName vNetName
                      \<lparr>vnet_Location = Some westUS, vnet_AddressPrefixes = Some [''172.16.0.0/16'']\<rparr>))
          (\<lambda>err. onErrorFail v err ''CreateOrUpdate failed''))"

text \<open>
  \<open>createSubnets\<close>. The loop carries the \<open>subnet\<close> struct, whose address prefix each
  round overwrites, and the \<open>subnets\<close> slice.
\<close>

definition subnetNames :: "string list" where
  "subnetNames = [''Front-end'', ''Mid-tier'', ''Back-end'']"

definition createSubnets_body :: "variant \<Rightarrow> nat \<Rightarrow> string \<Rightarrow> Subnet \<times> Subnet list \<Rightarrow> (Subnet \<times> Subnet list) prog" where
  "createSubnets_body v i n = (\<lambda>(subnet, subnets).
     seq (fmt_Print (tab @ ''Create subnet: '' @ sq @ n @ sq @ nl))
       (bind (deref (subnet_props subnet)) (\<lambda>p.
          let subnet' = subnet\<lparr>subnet_props :=
                Some (p\<lparr>AddressPrefix := Some (''172.16.'' @ show_nat (i + 1) @ ''.0/24'')\<rparr>)\<rparr>
          in bind (call (Subnets_CreateOrUpdate groupName vNetName n subnet')) (\<lambda>err.
             seq (onErrorFail v err (tab @ ''CreateOrUpdate failed''))
               (bind (call_get subnet_of (Subnets_Get groupName vNetName n [])) (\<lambda>(subnetInfo, err).
                  seq (onErrorFail v err (tab @ ''Get failed''))
                    (ret (subnet', subnets @ [subnetInfo]))))))))"

definition createSubnets :: "variant \<Rightarrow> Subnet list prog" where
  "createSubnets v =
     seq (fmt_Print (''Create subnets'' @ nl))
       (bind (for_range (createSubnets_body v) subnetNames 0
                (\<lparr>subnet_ID = None, subnet_Name = None,
                   subnet_props = Some \<lparr>AddressPrefix = None\<rparr>\<rparr>, []))
          (\<lambda>(subnet, subnets). ret subnets))"

text \<open>\<open>createPIP\<close> creates a public IP address and fetches it back.\<close>

definition createPIP :: "variant \<Rightarrow> string \<Rightarrow> PublicIPAddress prog" where
  "createPIP v pipName =
     seq (fmt_Print (''Create public IP address: '' @ sq @ pipName @ sq @ nl))
       (bind (call (PublicIPAddresses_CreateOrUpdate groupName pipName
                \<lparr>pip_ID = None, pip_Name = None, pip_Location = Some westUS,
                  pip_props = Some \<lparr>DNSSettings =
                    Some \<lparr>DomainNameLabel = Some (''azuresample-'' @ pipName)\<rparr>\<rparr>\<rparr>)) (\<lambda>err.
          seq (onErrorFail v err ''CreateOrUpdate failed'')
            (seq (fmt_Print (''Get public IP address'' @ nl))
               (bind (call_get pip_of (PublicIPAddresses_Get groupName pipName [])) (\<lambda>(pip, err).
                  seq (onErrorFail v err ''Get failed'') (ret pip))))))"

subsection \<open>Writing through the pointers of an interface\<close>

text \<open>
  \<open>nic.F = x\<close> for a field \<open>F\<close> promoted from the embedded
  \<open>*InterfacePropertiesFormat\<close>.
\<close>

definition with_nic_props :: "(InterfacePropertiesFormat \<Rightarrow> InterfacePropertiesFormat prog) \<Rightarrow> Interface \<Rightarrow> Interface prog" where
  "with_nic_props f nic =
     bind (deref (nic_props nic)) (\<lambda>p.
       bind (f p) (\<lambda>p'. ret (nic\<lparr>nic_props := Some p'\<rparr>)))"

text \<open>\<open>(*nic.IPConfigurations)[0] = ...\<close>: every step of the path can panic.\<close>

definition with_ipconfig0 :: "(InterfaceIPConfiguration \<Rightarrow> InterfaceIPConfiguration prog) \<Rightarrow> Interface \<Rightarrow> Interface prog" where
  "with_ipconfig0 f =
     with_nic_props (\<lambda>p.
       bind (deref (IPConfigurations p)) (\<lambda>cs.
         bind (index cs 0) (\<lambda>c.
           bind (f c) (\<lambda>c'. ret (p\<lparr>IPConfigurations := Some (cs[0 := c'])\<rparr>)))))"

text \<open>
  A field promoted from the embedded \<open>*InterfaceIPConfigurationPropertiesFormat\<close> of
  the first IP configuration.
\<close>

definition with_ipconfig0_props :: "(InterfaceIPConfigurationPropertiesFormat \<Rightarrow> InterfaceIPConfigurationPropertiesFormat) \<Rightarrow> Interface \<Rightarrow> Interface prog" where
  "with_ipconfig0_props g =
     with_ipconfig0 (\<lambda>c.
       bind (deref (ipc_props c)) (\<lambda>cp. ret (c\<lparr>ipc_props := Some (g cp)\<rparr>)))"

text \<open>
  \<open>createNICs\<close>. The loop carries the \<open>nic\<close> struct, which every round rewrites in
  place, and the \<open>nics\<close> slice.
\<close>

definition nicNames :: "string list" where
  "nicNames = [nicNameFrontEnd, nicNameMidTier, nicNameBackEnd]"

definition nicTemplate :: Interface where
  "nicTemplate =
     \<lparr>nic_ID = None, nic_Name = None, nic_Location = Some westUS,
      nic_props = Some
        \<lparr>EnableIPForwarding = None, MacAddress = None,
         IPConfigurations = Some
           [\<lparr>ipc_Name = None,
             ipc_props = Some
               \<lparr>PrivateIPAddress = None, PrivateIPAllocationMethod = ''Dynamic'',
                ipc_Subnet = None, ipc_Primary = None, ipc_PublicIPAddress = None\<rparr>\<rparr>]\<rparr>\<rparr>"

definition createNICs_body :: "variant \<Rightarrow> Subnet list \<Rightarrow> PublicIPAddress \<Rightarrow> nat \<Rightarrow> string \<Rightarrow> Interface \<times> Interface list \<Rightarrow> (Interface \<times> Interface list) prog" where
  "createNICs_body v subnets pip i n = (\<lambda>(nic, nics).
     bind (index subnets i) (\<lambda>sn.
     bind (deref (subnet_Name sn)) (\<lambda>sname.
     seq (fmt_Print (tab @ ''Create NIC '' @ sq @ n @ sq @ '' using subnet '' @ sq @ sname @ sq @ nl))
     (bind (with_ipconfig0 (\<lambda>c. ret (c\<lparr>ipc_Name := Some (''IPconfig'' @ show_nat (i + 1))\<rparr>)) nic) (\<lambda>nic1.
      bind (with_ipconfig0_props (\<lambda>cp. cp\<lparr>ipc_Subnet := Some sn\<rparr>) nic1) (\<lambda>nic2.
      bind (if n = nicNameFrontEnd
            then bind (with_nic_props (\<lambda>p. ret (p\<lparr>EnableIPForwarding := Some True\<rparr>)) nic2) (\<lambda>a.
                 bind (with_ipconfig0_props (\<lambda>cp. cp\<lparr>ipc_Primary := Some True\<rparr>) a) (\<lambda>b.
                   with_ipconfig0_props (\<lambda>cp. cp\<lparr>ipc_PublicIPAddress := Some pip\<rparr>) b))
            else bind (with_nic_props (\<lambda>p. ret (p\<lparr>EnableIPForwarding := None\<rparr>)) nic2) (\<lambda>a.
                 bind (with_ipconfig0_props (\<lambda>cp. cp\<lparr>ipc_Primary := None\<rparr>) a) (\<lambda>b.
                   with_ipconfig0_props (\<lambda>cp. cp\<lparr>ipc_PublicIPAddress := None\<rparr>) b))) (\<lambda>nic3.
      bind (call (Interfaces_CreateOrUpdate groupName n nic3)) (\<lambda>err.
      seq (onErrorFail v err ''CreateOrUpdate failed'')
      (bind (call_get nic_of (Interfaces_Get groupName n [])) (\<lambda>(nicInfo, err).
       seq (onErrorFail v err ''Get failed'')
         (ret (nic3, nics @ [nicInfo]))))))))))))"

definition createNICs :: "variant \<Rightarrow> Subnet list \<Rightarrow> PublicIPAddress \<Rightarrow> Interface list prog" where
  "createNICs v subnets pip =
     seq (fmt_Print (''Create network interfaces (NICs)'' @ nl))
       (bind (for_range (createNICs_body v subnets pip) nicNames 0 (nicTemplate, []))
          (\<lambda>(nic, nics). ret nics))"

text \<open>
  \<open>buildNIRs\<close>. Both variants print \<open>*nic.Name\<close> first; the hardened one then guards
  the comparison by \<open>nic.Name != nil\<close>.
\<close>

definition isFrontEnd :: "variant \<Rightarrow> Interface \<Rightarrow> bool prog" where
  "isFrontEnd v nic =
     (case v of
        Sequential \<Rightarrow> bind (deref (nic_Name nic)) (\<lambda>name. ret (name = nicNameFrontEnd))
      | Hardened \<Rightarrow>
          if nic_Name nic \<noteq> None
          then bind (deref (nic_Name nic)) (\<lambda>name. ret (name = nicNameFrontEnd))
          else ret False)"

definition buildNIRs_body :: "variant \<Rightarrow> nat \<Rightarrow> Interface \<Rightarrow> NetworkInterfaceReference list \<Rightarrow> NetworkInterfaceReference list prog" where
  "buildNIRs_body v i nic nirs =
     bind (deref (nic_Name nic)) (\<lambda>name.
     seq (fmt_Print (tab @ ''Assign NIC '' @ sq @ name @ sq @ '' to NIR '' @ show_nat i @ nl))
     (let nir = \<lparr>nir_ID = nic_ID nic, nir_props = None\<rparr>
      in bind (isFrontEnd v nic) (\<lambda>front.
           if front
           then seq (fmt_Print (tab @ nicNameFrontEnd @ '' is assigned to the primary NIR'' @ nl))
                  (ret (nirs @ [nir\<lparr>nir_props := Some \<lparr>nir_Primary = Some True\<rparr>\<rparr>]))
           else ret (nirs @ [nir\<lparr>nir_props := Some \<lparr>nir_Primary = Some False\<rparr>\<rparr>]))))"

definition buildNIRs :: "variant \<Rightarrow> Interface list \<Rightarrow> NetworkInterfaceReference list prog" where
  "buildNIRs v nics =
     seq (fmt_Print (''Assign NIC to Network Interface References (NIRs) '' @ nl))
       (for_range (buildNIRs_body v) nics 0 [])"

definition vhdURI :: "variant \<Rightarrow> string" where
  "vhdURI v =
     (case v of
        Sequential \<Rightarrow>
          ''https://'' @ accountName @ ''.blob.core.windows.net/golangcontainer/'' @ vmName @ ''.vhd''
      | Hardened \<Rightarrow>
          ''https://'' @ accountName @ ''.blob.'' @ storageEndpointSuffix
            @ ''/golangcontainer/'' @ vmName @ ''.vhd'')"

definition createVM :: "variant \<Rightarrow> NetworkInterfaceReference list \<Rightarrow> unit prog" where
  "createVM v nirs =
     seq (fmt_Print (''Create VM with the assigned NIRs'' @ nl))
       (let vm = \<lparr>vm_Location = Some westUS, vm_VMSize = ''Standard_D3_v2'',
                  vm_Publisher = Some ''Canonical'', vm_Offer = Some ''UbuntuServer'',
                  vm_Sku = Some ''16.04.0-LTS'', vm_Version = Some ''latest'',
                  vm_OsDiskName = Some ''osDisk'', vm_VhdURI = Some (vhdURI v),
                  vm_CreateOption = ''FromImage'', vm_ComputerName = Some vmName,
                  vm_AdminUsername = Some ''notadmin'',
                  vm_AdminPassword = Some ''Pa$$w0rd1975'',
                  vm_NetworkInterfaces = Some []\<rparr>;
            vm' = vm\<lparr>vm_NetworkInterfaces := Some nirs\<rparr>
        in bind (call (VirtualMachines_CreateOrUpdate groupName vmName vm'))
             (\<lambda>err. onErrorFail v err ''CreateOrUpdate failed''))"

text \<open>
  \<open>updateNICwithPIP\<close>. \<open>index\<close> starts at its zero value and is assigned at every
  interface whose name equals \<open>nicName\<close>. The slice is mutated in place; the model
  returns its contents after the call.
\<close>

definition findNIC_body :: "string \<Rightarrow> nat \<Rightarrow> Interface \<Rightarrow> nat \<Rightarrow> nat prog" where
  "findNIC_body nicName i nic idx =
     bind (deref (nic_Name nic)) (\<lambda>name. ret (if name = nicName then i else idx))"

definition updateNICwithPIP :: "variant \<Rightarrow> string \<Rightarrow> Interface list \<Rightarrow> PublicIPAddress \<Rightarrow> Interface list prog" where
  "updateNICwithPIP v nicName nics pip =
     bind (for_range (findNIC_body nicName) nics 0 0) (\<lambda>idx.
     bind (deref (pip_Name pip)) (\<lambda>pname.
     seq (fmt_Print (''Update NIC '' @ sq @ nicName @ sq @ '' with PIP '' @ sq @ pname @ sq @ nl))
     (bind (index nics idx) (\<lambda>nic.
      bind (with_ipconfig0_props (\<lambda>cp. cp\<lparr>ipc_PublicIPAddress := Some pip\<rparr>) nic) (\<lambda>nic1.
      bind (with_ipconfig0_props (\<lambda>cp. cp\<lparr>ipc_Primary := Some True\<rparr>) nic1) (\<lambda>nic2.
      bind (call (Interfaces_CreateOrUpdate groupName nicName nic2)) (\<lambda>err.
      seq (onErrorFail v err ''CreateOrUpdate failed'')
        (ret (nics[idx := nic2])))))))))"

text \<open>\<open>printNIC\<close> prints basic info about a network interface.\<close>

definition printNIC :: "Interface \<Rightarrow> unit prog" where
  "printNIC nic =
     bind (deref (nic_Name nic)) (\<lambda>name.
     seq (fmt_Print (''Network interface '' @ sq @ name @ sq @ nl))
     (bind (deref (nic_Location nic)) (\<lambda>loc.
     seq (fmt_Print (tab @ ''Location:                    '' @ loc @ nl))
     (bind (deref (nic_props nic)) (\<lambda>p.
      bind (deref (EnableIPForwarding p)) (\<lambda>fwd.
     seq (fmt_Print (tab @ ''IP forwarding enabled:       '' @ show_bool fwd @ nl))
     (bind (deref (MacAddress p)) (\<lambda>mac.
     seq (fmt_Print (tab @ ''MAC address:                 '' @ mac @ nl))
     (bind (deref (IPConfigurations p)) (\<lambda>cs.
      bind (index cs 0) (\<lambda>c.
      bind (deref (ipc_props c)) (\<lambda>cp.
      bind (deref (PrivateIPAddress cp)) (\<lambda>ip.
     seq (fmt_Print (tab @ ''Private IP:                  '' @ ip @ nl))
     (seq (fmt_Print (tab @ ''Private allocation method:   '' @ PrivateIPAllocationMethod cp @ nl))
     (bind (deref (ipc_Subnet cp)) (\<lambda>sn.
      bind (deref (subnet_ID sn)) (\<lambda>sid.
     seq (fmt_Print (tab @ ''Primary virtual network ID:  '' @ sid @ nl))
       (fmt_Print nl))))))))))))))))))"

definition listNICs :: "variant \<Rightarrow> unit prog" where
  "listNICs v =
     seq (fmt_Print (''Listing NICs'' @ nl))
       (bind (call_get nics_of (Interfaces_List groupName)) (\<lambda>(list, err).
          seq (onErrorFail v err ''List failed'')
            (case list of
               None \<Rightarrow> fmt_Print (''There are no NICs in '' @ groupName @ '' resource group'' @ nl)
             | Some nics \<Rightarrow>
                 if length nics = 0
                 then fmt_Print (''There are no NICs in '' @ groupName @ '' resource group'' @ nl)
                 else for_range (\<lambda>_ nic _. printNIC nic) nics 0 ())))"

definition deleteNIC :: "variant \<Rightarrow> string \<Rightarrow> unit prog" where
  "deleteNIC v nicName =
     seq (fmt_Print (''Delete NIC'' @ nl))
     (seq (fmt_Print (tab @ ''First, delete the VM'' @ nl))
     (bind (call (VirtualMachines_Delete groupName vmName)) (\<lambda>err.
      seq (onErrorFail v err ''Delete failed'')
     (seq (fmt_Print (tab @ ''Second, delete the NIC'' @ nl))
     (bind (call (Interfaces_Delete groupName nicName)) (\<lambda>err.
        onErrorFail v err ''Delete failed''))))))"

definition deleteResourceGroup :: "variant \<Rightarrow> unit prog" where
  "deleteResourceGroup v =
     seq (fmt_Print (''Deleting resource group'' @ nl))
       (bind (call (Groups_Delete groupName)) (\<lambda>err. onErrorFail v err ''Delete failed''))"

text \<open>
  \<open>getEnvVarOrExit\<close> returns the value of the specified environment variable or
  terminates if it is not defined. \<open>os.Getenv\<close> returns the empty string for an unset
  variable.
\<close>

definition getEnvVarOrExit :: "string \<Rightarrow> string prog" where
  "getEnvVarOrExit varName = (\<lambda>w.
     let val = environ w varName
     in if val = []
        then seq (fmt_Print (''Missing environment variable '' @ varName @ nl)) (os_Exit 1) w
        else ret val w)"

text \<open>
  The two SDK functions that \<open>init\<close> of \<open>example.go\<close> calls build a configuration and
  a token locally; whether they return an error is a parameter of the world.
\<close>

definition OAuthConfigForTenant :: "string \<Rightarrow> string option prog" where
  "OAuthConfigForTenant tenantID = (\<lambda>w. (Ok (oauth_err w tenantID), w))"

definition NewServicePrincipalToken :: "string \<Rightarrow> string \<Rightarrow> string option prog" where
  "NewServicePrincipalToken clientID clientSecret = (\<lambda>w. (Ok (token_err w clientID clientSecret), w))"

text \<open>\<open>createClients\<close> only fills the package-level client handles.\<close>

definition createClients :: "string \<Rightarrow> unit prog" where
  "createClients subscriptionID = ret ()"

text \<open>\<open>init\<close> of \<open>example.go\<close>.\<close>

definition init :: "unit prog" where
  "init =
     bind (getEnvVarOrExit ''AZURE_SUBSCRIPTION_ID'') (\<lambda>subscriptionID.
     bind (getEnvVarOrExit ''AZURE_TENANT_ID'') (\<lambda>tenantID.
     bind (OAuthConfigForTenant tenantID) (\<lambda>err.
     seq (onErrorFail Sequential err ''OAuthConfigForTenant failed'')
     (bind (getEnvVarOrExit ''AZURE_CLIENT_ID'') (\<lambda>clientID.
      bind (getEnvVarOrExit ''AZURE_CLIENT_SECRET'') (\<lambda>clientSecret.
      bind (NewServicePrincipalToken clientID clientSecret) (\<lambda>err.
      seq (onErrorFail Sequential err ''NewServicePrincipalToken failed'')
        (createClients subscriptionID))))))))"

text \<open>The part of \<open>main\<close> that both variants share, from \<open>createVM\<close> on.\<close>

definition main_rest :: "variant \<Rightarrow> Interface list \<Rightarrow> NetworkInterfaceReference list \<Rightarrow> unit prog" where
  "main_rest v nics nirs =
     seq (createVM v nirs)
     (bind (createPIP v ''pip2'') (\<lambda>pip2.
      bind (updateNICwithPIP v nicNameFrontEnd nics pip2) (\<lambda>_.
      seq (listNICs v)
     (seq (fmt_Print (''Press enter to delete NIC '' @ sq @ nicNameMidTier @ sq @ ''...'' @ nl))
     (seq fmt_Scanln
     (seq (deleteNIC v nicNameMidTier)
     (seq (fmt_Print (''Remaining NICs are...'' @ nl))
     (seq (listNICs v)
     (seq (fmt_Print ''Press enter to delete all the resources created in this sample...'')
     (seq fmt_Scanln
       (deleteResourceGroup v)))))))))))"

definition main :: "variant \<Rightarrow> unit prog" where
  "main v =
     (case v of
        Sequential \<Rightarrow>
          seq (createResourceGroup v)
         (seq (createVirtualNetwork v)
         (bind (createSubnets v) (\<lambda>subnets.
          bind (createPIP v ''pip1'') (\<lambda>pip1.
          bind (createNICs v subnets pip1) (\<lambda>nics.
          seq (createStorageAccount v)
         (bind (buildNIRs v nics) (\<lambda>nirs.
            main_rest v nics nirs)))))))
      | Hardened \<Rightarrow>
          seq (createResourceGroup v)
         (seq (wg_Add 1)
         (seq (go CreateStorageAccountTask)
         (seq (createVirtualNetwork v)
         (bind (createSubnets v) (\<lambda>subnets.
          bind (createPIP v ''pip1'') (\<lambda>pip1.
          bind (createNICs v subnets pip1) (\<lambda>nics.
          bind (buildNIRs v nics) (\<lambda>nirs.
          seq wg_Wait
            (main_rest v nics nirs))))))))))"

text \<open>The whole run of \<open>example.go\<close>: \<open>init\<close>, then \<open>main\<close>.\<close>

definition program :: "unit prog" where
  "program = seq init (main Sequential)"

text \<open>
  The world a process starts in: nothing issued, nothing printed, no goroutine, the
  wait group at zero.
\<close>

definition start :: "remote \<Rightarrow> (string \<Rightarrow> string) \<Rightarrow> (string \<Rightarrow> string option) \<Rightarrow> (string \<Rightarrow> string \<Rightarrow> string option) \<Rightarrow> nat \<Rightarrow> world" where
  "start r env oe te d =
     \<lparr>api = r, environ = env, oauth_err = oe, token_err = te,
      history = [], stdout = [], wg = 0, pending = [], delay = d\<rparr>"

section \<open>Concrete collaborators\<close>

text \<open>
  A remote service on which every call succeeds and every fetch returns a resource
  that carries the name asked for, a world that starts with it, and two interfaces
  as a fetch may return them: one with a name, one without.
\<close>

definition fake :: remote where
  "fake =
     \<lparr>err_of = (\<lambda>h c. None),
      subnet_of = (\<lambda>h c. case c of
          Subnets_Get g vn n e \<Rightarrow>
            \<lparr>subnet_ID = Some (''/subnets/'' @ n), subnet_Name = Some n, subnet_props = None\<rparr>
        | _ \<Rightarrow> \<lparr>subnet_ID = None, subnet_Name = None, subnet_props = None\<rparr>),
      pip_of = (\<lambda>h c. case c of
          PublicIPAddresses_Get g n e \<Rightarrow>
            \<lparr>pip_ID = Some (''/pips/'' @ n), pip_Name = Some n, pip_Location = Some westUS,
             pip_props = None\<rparr>
        | _ \<Rightarrow> \<lparr>pip_ID = None, pip_Name = None, pip_Location = None, pip_props = None\<rparr>),
      nic_of = (\<lambda>h c. case c of
          Interfaces_Get g n e \<Rightarrow>
            \<lparr>nic_ID = Some (''/nics/'' @ n), nic_Name = Some n, nic_Location = Some westUS,
             nic_props = Some
               \<lparr>EnableIPForwarding = Some False, MacAddress = Some ''00-0D-3A'',
                IPConfigurations = Some
                  [\<lparr>ipc_Name = Some ''IPconfig'',
                    ipc_props = Some
                      \<lparr>PrivateIPAddress = Some ''172.16.1.4'',
                       PrivateIPAllocationMethod = ''Dynamic'',
                       ipc_Subnet = Some \<lparr>subnet_ID = Some ''/subnets/s'', subnet_Name = None,
                                          subnet_props = None\<rparr>,
                       ipc_Primary = None, ipc_PublicIPAddress = None\<rparr>\<rparr>]\<rparr>\<rparr>
        | _ \<Rightarrow> \<lparr>nic_ID = None, nic_Name = None, nic_Location = None, nic_props = None\<rparr>),
      nics_of = (\<lambda>h c. Some [])\<rparr>"

definition world0 :: world where
  "world0 = start fake (\<lambda>_. ''x'') (\<lambda>_. None) (\<lambda>_ _. None) 0"

definition named :: "string \<Rightarrow> Interface" where
  "named n = \<lparr>nic_ID = Some (''/nics/'' @ n), nic_Name = Some n, nic_Location = None, nic_props = None\<rparr>"

definition nameless :: Interface where
  "nameless = \<lparr>nic_ID = Some ''/nics/x'', nic_Name = None, nic_Location = None, nic_props = None\<rparr>"

text \<open>A world in which the list call returns two interfaces, the second without a name.\<close>

definition lister :: world where
  "lister = start (fake\<lparr>nics_of := (\<lambda>h c. Some [named ''nic1'', nameless])\<rparr>)
     (\<lambda>_. ''x'') (\<lambda>_. None) (\<lambda>_ _. None) 0"

text \<open>
  An interface and a public IP address as the fake service returns them, and a public
  IP address without a name.
\<close>

definition fetched :: "string \<Rightarrow> Interface" where
  "fetched n = nic_of fake [] (Interfaces_Get groupName n [])"

definition fetched_pip :: "string \<Rightarrow> PublicIPAddress" where
  "fetched_pip n = pip_of fake [] (PublicIPAddresses_Get groupName n [])"

definition unnamed_pip :: PublicIPAddress where
  "unnamed_pip = \<lparr>pip_ID = Some ''/pips/x'', pip_Name = None, pip_Location = None, pip_props = None\<rparr>"

text \<open>
  Two environments: one lacks the client secret; the other lacks the client ID and
  holds a tenant ID that is not a valid URL path.
\<close>

definition no_secret :: "string \<Rightarrow> string" where
  "no_secret x = (if x = ''AZURE_CLIENT_SECRET'' then [] else ''value'')"

definition no_client :: "string \<Rightarrow> string" where
  "no_client x = (if x = ''AZURE_CLIENT_ID'' then [] else ''%zz'')"

section \<open>Assertions about runs\<close>

text \<open>
  How a computation can stop without returning, and a Hoare triple with one
  postcondition for the value returned and one for each way of stopping.
\<close>

datatype halt = HExit nat | HPanic | HBlock

definition hoare :: "(world \<Rightarrow> bool) \<Rightarrow> 'a prog \<Rightarrow> ('a \<Rightarrow> world \<Rightarrow> bool) \<Rightarrow> (halt \<Rightarrow> world \<Rightarrow> bool) \<Rightarrow> bool" where
  "hoare P p Q E = (\<forall>w. P w \<longrightarrow>
     (case p w of
        (Ok a, w') \<Rightarrow> Q a w'
      | (Exited n, w') \<Rightarrow> E (HExit n) w'
      | (Panicked, w') \<Rightarrow> E HPanic w'
      | (Blocked, w') \<Rightarrow> E HBlock w'))"

text \<open>
  The label that the script passes to \<open>onErrorFail\<close> after each kind of call, read off
  the call sites: it depends on the method called only (the two subnet calls carry a
  leading tab).
\<close>

definition label_of :: "call \<Rightarrow> string" where
  "label_of c =
     (case c of
        Groups_CreateOrUpdate g rg \<Rightarrow> ''CreateOrUpdate failed''
      | Groups_Delete g \<Rightarrow> ''Delete failed''
      | VirtualNetworks_CreateOrUpdate g n vn \<Rightarrow> ''CreateOrUpdate failed''
      | Subnets_CreateOrUpdate g vn n sn \<Rightarrow> tab @ ''CreateOrUpdate failed''
      | Subnets_Get g vn n e \<Rightarrow> tab @ ''Get failed''
      | PublicIPAddresses_CreateOrUpdate g n pip \<Rightarrow> ''CreateOrUpdate failed''
      | PublicIPAddresses_Get g n e \<Rightarrow> ''Get failed''
      | Interfaces_CreateOrUpdate g n nic \<Rightarrow> ''CreateOrUpdate failed''
      | Interfaces_Get g n e \<Rightarrow> ''Get failed''
      | Interfaces_List g \<Rightarrow> ''List failed''
      | Interfaces_Delete g n \<Rightarrow> ''Delete failed''
      | Accounts_Create g n a \<Rightarrow> ''Create failed''
      | VirtualMachines_CreateOrUpdate g n vm \<Rightarrow> ''CreateOrUpdate failed''
      | VirtualMachines_Delete g n \<Rightarrow> ''Delete failed'')"

text \<open>
  The creation of the virtual machine, and the event of a storage-account creation
  that returned without error.
\<close>

definition is_createVM :: "call \<Rightarrow> bool" where
  "is_createVM c = (case c of VirtualMachines_CreateOrUpdate g n vm \<Rightarrow> True | _ \<Rightarrow> False)"

definition acct_ok :: event where
  "acct_ok = (Accounts_Create groupName accountName storageAccount, None)"

text \<open>
  In a history, every call that satisfies \<open>p\<close> comes after the event \<open>g\<close>.
\<close>

definition precedes :: "event \<Rightarrow> (call \<Rightarrow> bool) \<Rightarrow> event list \<Rightarrow> bool" where
  "precedes g p h = (\<forall>j < length h. p (fst (h ! j)) \<longrightarrow> (\<exists>i < j. h ! i = g))"

text \<open>
  What the error handler itself issues before it exits; a history in which no call
  returned an error; a history without a virtual-machine creation; a history in which
  every virtual-machine creation comes after a successful storage-account creation;
  and the shape of a run that an error ended: calls without error, the failing call,
  the handler's own call, and the label and the error as the last line printed.
\<close>

definition cleanup :: "variant \<Rightarrow> event list" where
  "cleanup v = (case v of Sequential \<Rightarrow> [] | Hardened \<Rightarrow> [(Groups_Delete groupName, None)])"

definition all_ok :: "event list \<Rightarrow> bool" where
  "all_ok h = list_all (\<lambda>ev. snd ev = None) h"

definition novm :: "event list \<Rightarrow> bool" where
  "novm h = list_all (\<lambda>ev. \<not> is_createVM (fst ev)) h"

definition vm_after_acct :: "event list \<Rightarrow> bool" where
  "vm_after_acct h = precedes acct_ok is_createVM h"

definition fail_shape :: "variant \<Rightarrow> event list \<Rightarrow> string list \<Rightarrow> bool" where
  "fail_shape v h out = (\<exists>h0 c e. h = h0 @ (c, Some e) # cleanup v \<and> all_ok h0
       \<and> out \<noteq> [] \<and> last out = label_of c @ '': '' @ e @ nl)"

text \<open>
  The stages of \<open>main\<close> with respect to the storage account: before its creation is
  started, while the goroutine that creates it may still be outstanding (hardened
  variant only), and after its creation has completed. The invariant of each stage,
  the invariant between a call and the check of its error, and what holds when the
  process stops.
\<close>

datatype stage = Before | Running | After

definition stage_inv :: "variant \<Rightarrow> stage \<Rightarrow> world \<Rightarrow> bool" where
  "stage_inv v s w =
     (case s of
        Before \<Rightarrow> pending w = [] \<and> wg w = 0 \<and> novm (history w)
      | Running \<Rightarrow> v = Hardened \<and> novm (history w)
          \<and> (pending w = [CreateStorageAccountTask] \<and> wg w = 1
             \<or> pending w = [] \<and> wg w = 0 \<and> acct_ok \<in> set (history w))
      | After \<Rightarrow> pending w = [] \<and> wg w = 0 \<and> acct_ok \<in> set (history w)
          \<and> vm_after_acct (history w))"

definition sound :: "variant \<Rightarrow> stage \<Rightarrow> world \<Rightarrow> bool" where
  "sound v s w = (all_ok (history w) \<and> stage_inv v s w)"

definition sound_after :: "variant \<Rightarrow> stage \<Rightarrow> call \<Rightarrow> string option \<Rightarrow> world \<Rightarrow> bool" where
  "sound_after v s c err w = (\<exists>h. history w = h @ [(c, err)] \<and> all_ok h \<and> stage_inv v s w)"

definition sound_halt :: "variant \<Rightarrow> halt \<Rightarrow> world \<Rightarrow> bool" where
  "sound_halt v k w = (vm_after_acct (history w)
     \<and> (case k of HExit n \<Rightarrow> n = 1 \<and> fail_shape v (history w) (stdout w)
        | _ \<Rightarrow> all_ok (history w)))"


definition quota :: remote where
  "quota = fake\<lparr>err_of := (\<lambda>h c. if is_createVM c then Some ''quota exceeded'' else None)\<rparr>"

definition env0 :: "string \<Rightarrow> string" where "env0 = (\<lambda>_. ''x'')"


definition wquota :: world where
  "wquota = start quota env0 (\<lambda>_. None) (\<lambda>_ _. None) 5"


text \<open>
  An assertion on the history, with what holds of the history when the process stops,
  is inert when a goroutine that runs in between cannot break it: the goroutine
  appends its storage-account creation and, if that failed, the handler's call.
\<close>

definition inert :: "(event list \<Rightarrow> bool) \<Rightarrow> (halt \<Rightarrow> event list \<Rightarrow> bool) \<Rightarrow> bool" where
  "inert R Eh = ((\<forall>h. R h \<longrightarrow> R (h @ [acct_ok]) \<and> Eh HPanic h \<and> Eh HPanic (h @ [acct_ok]))
     \<and> (\<forall>h e. R h \<longrightarrow> Eh (HExit 1) (h @ [(Accounts_Create groupName accountName storageAccount, Some e),
                (Groups_Delete groupName, None)])))"







section \<open>Laws of the computations\<close>

lemma bind_ret: "bind (ret a) f = f a"
  by (simp add: bind_def ret_def)


lemma bind_Ok: "p w = (Ok a, w') \<Longrightarrow> bind p f w = f a w'"
  by (simp add: bind_def)

lemma seq_Print: "seq (fmt_Print s) q w = q (w\<lparr>stdout := stdout w @ [s]\<rparr>)"
  by (simp add: seq_def bind_def fmt_Print_def)

lemma ret_apply: "ret a w = (Ok a, w)"
  by (simp add: ret_def)


lemma if_apply: "(if c then p else q) w = (if c then p w else q w)"
  by simp

lemma deref_Some: "deref (Some x) = ret x"
  by (simp add: deref_def)


lemma isFrontEnd_Some: "isFrontEnd v (nic\<lparr>nic_Name := Some n\<rparr>) = ret (n = nicNameFrontEnd)"
  by (cases v) (simp_all add: isFrontEnd_def deref_Some bind_ret)

lemma isFrontEnd_named: "nic_Name nic = Some n \<Longrightarrow> isFrontEnd v nic = ret (n = nicNameFrontEnd)"
  by (cases v) (simp_all add: isFrontEnd_def deref_Some bind_ret)

lemma buildNIRs_body_named:
  assumes "nic_Name nic = Some n"
  shows "\<exists>w'. buildNIRs_body v i nic nirs w =
           (Ok (nirs @ [\<lparr>nir_ID = nic_ID nic,
                         nir_props = Some \<lparr>nir_Primary = Some (n = nicNameFrontEnd)\<rparr>\<rparr>]), w')
         \<and> history w' = history w \<and> pending w' = pending w \<and> wg w' = wg w"
  using assms
  by (simp add: buildNIRs_body_def deref_Some bind_ret isFrontEnd_named seq_Print ret_apply if_apply Let_def)

lemma buildNIRs_loop:
  assumes "\<forall>nic \<in> set nics. nic_Name nic \<noteq> None"
  shows "\<exists>w'. for_range (buildNIRs_body v) nics i acc w =
           (Ok (acc @ map (\<lambda>nic. \<lparr>nir_ID = nic_ID nic,
                  nir_props = Some \<lparr>nir_Primary = Some (nic_Name nic = Some nicNameFrontEnd)\<rparr>\<rparr>) nics), w')
         \<and> history w' = history w \<and> pending w' = pending w \<and> wg w' = wg w"
  using assms
proof (induction nics arbitrary: i acc w)
  case Nil
  then show ?case by (simp add: ret_def)
next
  case (Cons nic nics)
  then obtain n where n: "nic_Name nic = Some n" by auto
  from buildNIRs_body_named [OF n, of v i acc w]
  obtain w1 where b: "buildNIRs_body v i nic acc w =
      (Ok (acc @ [\<lparr>nir_ID = nic_ID nic, nir_props = Some \<lparr>nir_Primary = Some (n = nicNameFrontEnd)\<rparr>\<rparr>]), w1)"
    and h: "history w1 = history w" "pending w1 = pending w" "wg w1 = wg w" by blast
  from Cons.prems have "\<forall>nic \<in> set nics. nic_Name nic \<noteq> None" by simp
  from Cons.IH [OF this, of "Suc i"
      "acc @ [\<lparr>nir_ID = nic_ID nic, nir_props = Some \<lparr>nir_Primary = Some (n = nicNameFrontEnd)\<rparr>\<rparr>]" w1]
    b h n
  show ?case by (simp add: bind_Ok)
qed

lemma buildNIRs_named:
  assumes "\<forall>nic \<in> set nics. nic_Name nic \<noteq> None"
  shows "\<exists>w'. buildNIRs v nics w =
           (Ok (map (\<lambda>nic. \<lparr>nir_ID = nic_ID nic,
                  nir_props = Some \<lparr>nir_Primary = Some (nic_Name nic = Some nicNameFrontEnd)\<rparr>\<rparr>) nics), w')
         \<and> history w' = history w \<and> pending w' = pending w \<and> wg w' = wg w"
proof -
  let ?w = "w\<lparr>stdout := stdout w @ [''Assign NIC to Network Interface References (NIRs) '' @ nl]\<rparr>"
  from buildNIRs_loop [OF assms, of v 0 "[]" ?w]
  show ?thesis by (simp add: buildNIRs_def seq_Print)
qed

lemma bind_deref: "bind (deref p) f w = (case p of None \<Rightarrow> (Panicked, w) | Some x \<Rightarrow> f x w)"
  by (cases p) (simp_all add: deref_def bind_def panic_def ret_def)

lemma bind_index: "bind (index xs i) f w = (if i < length xs then f (xs ! i) w else (Panicked, w))"
  by (simp add: index_def bind_def panic_def ret_def)

lemma fmt_Print_apply: "fmt_Print s w = (Ok (), w\<lparr>stdout := stdout w @ [s]\<rparr>)"
  by (simp add: fmt_Print_def)

lemma printNIC_result:
  "fst (printNIC nic w) =
     (if (\<exists>name loc p fwd mac cs cp ip sn sid.
            nic_Name nic = Some name \<and> nic_Location nic = Some loc \<and> nic_props nic = Some p
          \<and> EnableIPForwarding p = Some fwd \<and> MacAddress p = Some mac
          \<and> IPConfigurations p = Some cs \<and> cs \<noteq> [] \<and> ipc_props (cs ! 0) = Some cp
          \<and> PrivateIPAddress cp = Some ip \<and> ipc_Subnet cp = Some sn \<and> subnet_ID sn = Some sid)
      then Ok () else Panicked)"
  by (auto simp: printNIC_def bind_deref bind_index seq_Print fmt_Print_apply split: option.splits)

lemma printNIC_world:
  "history (snd (printNIC nic w)) = history w \<and> pending (snd (printNIC nic w)) = pending w
   \<and> wg (snd (printNIC nic w)) = wg w \<and> api (snd (printNIC nic w)) = api w"
  by (auto simp: printNIC_def bind_deref bind_index seq_Print fmt_Print_apply split: option.splits)


lemma printNIC_any_world: "fst (printNIC nic w) = fst (printNIC nic w')"
  by (simp add: printNIC_result)

lemma printNIC_Ok_or_Panicked: "fst (printNIC nic w) = Ok () \<or> fst (printNIC nic w) = Panicked"
  by (simp add: printNIC_result)

lemma printNIC_loop:
  "fst (for_range (\<lambda>_ nic _. printNIC nic) nics i () w) =
     (if \<exists>nic \<in> set nics. fst (printNIC nic w) = Panicked then Panicked else Ok ())"
proof (induction nics arbitrary: i w)
  case Nil
  show ?case by (simp add: ret_def)
next
  case (Cons nic nics)
  obtain r w1 where p: "printNIC nic w = (r, w1)" by (cases "printNIC nic w")
  from printNIC_Ok_or_Panicked [of nic w] p have "r = Ok () \<or> r = Panicked" by simp
  then show ?case
  proof
    assume "r = Ok ()"
    with p have "for_range (\<lambda>_ nic _. printNIC nic) (nic # nics) i () w
        = for_range (\<lambda>_ nic _. printNIC nic) nics (Suc i) () w1"
      by (simp add: bind_def)
    moreover have "\<And>n. fst (printNIC n w1) = fst (printNIC n w)"
      by (rule printNIC_any_world)
    ultimately show ?thesis using Cons.IH [of "Suc i" w1] p \<open>r = Ok ()\<close> by simp
  next
    assume "r = Panicked"
    with p show ?thesis by (simp add: bind_def)
  qed
qed

lemma yield_idle: "pending w = [] \<Longrightarrow> yield w = (Ok (), w)"
  by (simp add: yield_def)

lemma call_idle: "pending w = [] \<Longrightarrow> call c w = issue c w"
  by (simp add: call_def seq_def bind_def yield_idle)

lemma call_get_idle: "pending w = [] \<Longrightarrow> call_get sel c w = issue_get sel c w"
  by (simp add: call_get_def seq_def bind_def yield_idle)

lemma onErrorFail_None: "onErrorFail v None m = ret ()"
  by (simp add: onErrorFail_def)

lemma seq_ret: "seq (ret ()) q = q"
  by (simp add: seq_def bind_def ret_def)

lemma findNIC_no_match:
  assumes "\<forall>nic \<in> set nics. \<exists>n. nic_Name nic = Some n \<and> n \<noteq> nicName"
  shows "for_range (findNIC_body nicName) nics i idx w = (Ok idx, w)"
  using assms
proof (induction nics arbitrary: i)
  case Nil
  show ?case by (simp add: ret_def)
next
  case (Cons nic nics)
  then obtain n where "nic_Name nic = Some n" "n \<noteq> nicName" by auto
  then have "findNIC_body nicName i nic idx w = (Ok idx, w)"
    by (simp add: findNIC_body_def bind_deref ret_def)
  with Cons show ?case by (simp add: bind_Ok)
qed

lemma bind_assoc: "bind (bind p f) g = bind p (\<lambda>x. bind (f x) g)"
  by (rule ext) (simp add: bind_def split: prod.splits result.splits)

lemma bind_Pair_Ok: "bind (Pair (Ok a)) f = f a"
  by (simp add: bind_def)

lemma issue_apply:
  "issue c w = (Ok (err_of (api w) (history w) c),
                w\<lparr>history := history w @ [(c, err_of (api w) (history w) c)]\<rparr>)"
  by (simp add: issue_def Let_def)

lemma issue_get_apply:
  "issue_get sel c w = (Ok (sel (api w) (history w) c, err_of (api w) (history w) c),
                w\<lparr>history := history w @ [(c, err_of (api w) (history w) c)]\<rparr>)"
  by (simp add: issue_get_def Let_def)

lemma bind_Pair_Panicked: "bind (Pair Panicked) f = Pair Panicked"
  by (rule ext) (simp add: bind_def)

lemma with_ipconfig0_props_present:
  assumes "nic_props nic = Some p" "IPConfigurations p = Some cs" "cs \<noteq> []"
    "ipc_props (cs ! 0) = Some cp"
  shows "with_ipconfig0_props g nic w =
     (Ok (nic\<lparr>nic_props := Some (p\<lparr>IPConfigurations :=
            Some (cs[0 := (cs ! 0)\<lparr>ipc_props := Some (g cp)\<rparr>])\<rparr>)\<rparr>), w)"
  using assms
  by (simp add: with_ipconfig0_props_def with_ipconfig0_def with_nic_props_def
      bind_assoc bind_deref bind_index bind_ret bind_Pair_Ok ret_apply)

lemma onErrorFail_Some:
  "onErrorFail v (Some e) m w =
     (Exited 1, w\<lparr>stdout := stdout w @ [m @ '': '' @ e @ nl],
                  history := history w @ (case v of Sequential \<Rightarrow> [] | Hardened \<Rightarrow> [(Groups_Delete groupName, None)])\<rparr>)"
  by (cases v) (simp_all add: onErrorFail_def fmt_Print_def fire_def os_Exit_def seq_def bind_def)

lemma seq_onErrorFail_Some:
  "seq (onErrorFail v (Some e) m) k w =
     (Exited 1, w\<lparr>stdout := stdout w @ [m @ '': '' @ e @ nl],
                  history := history w @ (case v of Sequential \<Rightarrow> [] | Hardened \<Rightarrow> [(Groups_Delete groupName, None)])\<rparr>)"
  by (simp add: seq_def bind_def onErrorFail_Some)

lemma seq_onErrorFail_None: "seq (onErrorFail v None m) k = k"
  by (simp add: onErrorFail_None seq_ret)

lemma history_world0: "history world0 = []"
  by (simp add: world0_def start_def)

lemma getEnvVarOrExit_apply:
  "getEnvVarOrExit x w =
     (if environ w x = []
      then (Exited 1, w\<lparr>stdout := stdout w @ [''Missing environment variable '' @ x @ nl]\<rparr>)
      else (Ok (environ w x), w))"
  by (simp add: getEnvVarOrExit_def Let_def seq_Print os_Exit_def ret_def)

lemma bind_getEnvVarOrExit:
  "bind (getEnvVarOrExit x) f w =
     (if environ w x = []
      then (Exited 1, w\<lparr>stdout := stdout w @ [''Missing environment variable '' @ x @ nl]\<rparr>)
      else f (environ w x) w)"
  by (simp add: bind_def getEnvVarOrExit_apply)

lemma bind_OAuthConfigForTenant:
  "bind (OAuthConfigForTenant t) f w = f (oauth_err w t) w"
  by (simp add: bind_def OAuthConfigForTenant_def)

lemma seq_Exited: "p w = (Exited n, w') \<Longrightarrow> seq p q w = (Exited n, w')"
  by (simp add: seq_def bind_def)

lemma init_missing:
  assumes "environ w ''AZURE_SUBSCRIPTION_ID'' = [] \<or> environ w ''AZURE_TENANT_ID'' = []
         \<or> environ w ''AZURE_CLIENT_ID'' = [] \<or> environ w ''AZURE_CLIENT_SECRET'' = []"
  shows "init w = (Exited 1, w\<lparr>stdout := stdout w @
      [if environ w ''AZURE_SUBSCRIPTION_ID'' = []
       then ''Missing environment variable AZURE_SUBSCRIPTION_ID'' @ nl
       else if environ w ''AZURE_TENANT_ID'' = []
       then ''Missing environment variable AZURE_TENANT_ID'' @ nl
       else case oauth_err w (environ w ''AZURE_TENANT_ID'') of
              Some e \<Rightarrow> ''OAuthConfigForTenant failed: '' @ e @ nl
            | None \<Rightarrow>
                if environ w ''AZURE_CLIENT_ID'' = []
                then ''Missing environment variable AZURE_CLIENT_ID'' @ nl
                else ''Missing environment variable AZURE_CLIENT_SECRET'' @ nl]\<rparr>)"
proof (cases "oauth_err w (environ w ''AZURE_TENANT_ID'')")
  case None
  with assms show ?thesis
    by (auto simp: init_def bind_getEnvVarOrExit bind_OAuthConfigForTenant seq_onErrorFail_None)
next
  case (Some e)
  with assms show ?thesis
    by (auto simp: init_def bind_getEnvVarOrExit bind_OAuthConfigForTenant seq_onErrorFail_Some)
qed

section \<open>Rules for the triples and the invariant of main\<close>

lemma precedes_snoc:
  assumes "precedes g p h" and "g \<in> set h \<or> \<not> p (fst ev)"
  shows "precedes g p (h @ [ev])"
  unfolding precedes_def
proof (intro allI impI)
  fix j assume j: "j < length (h @ [ev])" and pj: "p (fst ((h @ [ev]) ! j))"
  show "\<exists>i<j. (h @ [ev]) ! i = g"
  proof (cases "j < length h")
    case True
    with pj have "p (fst (h ! j))" by (simp add: nth_append)
    with assms(1) True obtain i where "i < j" "h ! i = g"
      by (auto simp: precedes_def)
    with True show ?thesis by (auto simp: nth_append intro!: exI [of _ i])
  next
    case False
    with j have jl: "j = length h" by simp
    with pj have "p (fst ev)" by simp
    with assms(2) have "g \<in> set h" by blast
    then obtain i where "i < length h" "h ! i = g" by (auto simp: in_set_conv_nth)
    with jl show ?thesis by (auto simp: nth_append intro!: exI [of _ i])
  qed
qed

lemma precedes_Nil: "precedes g p []"
  by (simp add: precedes_def)

lemma hoareI:
  assumes "\<And>w a w'. P w \<Longrightarrow> p w = (Ok a, w') \<Longrightarrow> Q a w'"
    and "\<And>w n w'. P w \<Longrightarrow> p w = (Exited n, w') \<Longrightarrow> E (HExit n) w'"
    and "\<And>w w'. P w \<Longrightarrow> p w = (Panicked, w') \<Longrightarrow> E HPanic w'"
    and "\<And>w w'. P w \<Longrightarrow> p w = (Blocked, w') \<Longrightarrow> E HBlock w'"
  shows "hoare P p Q E"
  unfolding hoare_def
proof (intro allI impI)
  fix w assume P: "P w"
  obtain r w' where r: "p w = (r, w')" by (cases "p w")
  show "case p w of
        (Ok a, w') \<Rightarrow> Q a w'
      | (Exited n, w') \<Rightarrow> E (HExit n) w'
      | (Panicked, w') \<Rightarrow> E HPanic w'
      | (Blocked, w') \<Rightarrow> E HBlock w'"
    using assms [OF P] r by (cases r) simp_all
qed

lemma hoareD:
  "hoare P p Q E \<Longrightarrow> P w \<Longrightarrow>
     (case p w of
        (Ok a, w') \<Rightarrow> Q a w'
      | (Exited n, w') \<Rightarrow> E (HExit n) w'
      | (Panicked, w') \<Rightarrow> E HPanic w'
      | (Blocked, w') \<Rightarrow> E HBlock w')"
  by (simp add: hoare_def)

lemma hoare_Ok: "hoare P p Q E \<Longrightarrow> P w \<Longrightarrow> p w = (Ok a, w') \<Longrightarrow> Q a w'"
  by (simp add: hoare_def split: prod.splits result.splits)

lemma hoare_Exited: "hoare P p Q E \<Longrightarrow> P w \<Longrightarrow> p w = (Exited n, w') \<Longrightarrow> E (HExit n) w'"
  by (simp add: hoare_def split: prod.splits result.splits)

lemma hoare_Panicked: "hoare P p Q E \<Longrightarrow> P w \<Longrightarrow> p w = (Panicked, w') \<Longrightarrow> E HPanic w'"
  by (simp add: hoare_def split: prod.splits result.splits)

lemma hoare_Blocked: "hoare P p Q E \<Longrightarrow> P w \<Longrightarrow> p w = (Blocked, w') \<Longrightarrow> E HBlock w'"
  by (simp add: hoare_def split: prod.splits result.splits)

lemma hoare_bind:
  assumes p: "hoare P p Q E" and f: "\<And>a. hoare (Q a) (f a) R E"
  shows "hoare P (bind p f) R E"
proof (rule hoareI)
  fix w b w' assume P: "P w" and r: "bind p f w = (Ok b, w')"
  obtain r1 w1 where p1: "p w = (r1, w1)" by (cases "p w")
  with r obtain a where a: "r1 = Ok a" "f a w1 = (Ok b, w')"
    by (cases r1) (simp_all add: bind_def)
  from hoare_Ok [OF p P] p1 a have "Q a w1" by simp
  from hoare_Ok [OF f this a(2)] show "R b w'" .
next
  fix w n w' assume P: "P w" and r: "bind p f w = (Exited n, w')"
  obtain r1 w1 where p1: "p w = (r1, w1)" by (cases "p w")
  show "E (HExit n) w'"
  proof (cases r1)
    case (Ok a)
    with r p1 have fa: "f a w1 = (Exited n, w')" by (simp add: bind_def)
    from hoare_Ok [OF p P] p1 Ok have "Q a w1" by simp
    from hoare_Exited [OF f this fa] show ?thesis .
  next
    case (Exited m)
    with r p1 have "p w = (Exited n, w')" by (simp add: bind_def)
    from hoare_Exited [OF p P this] show ?thesis .
  next
    case Panicked
    with r p1 show ?thesis by (simp add: bind_def)
  next
    case Blocked
    with r p1 show ?thesis by (simp add: bind_def)
  qed
next
  fix w w' assume P: "P w" and r: "bind p f w = (Panicked, w')"
  obtain r1 w1 where p1: "p w = (r1, w1)" by (cases "p w")
  show "E HPanic w'"
  proof (cases r1)
    case (Ok a)
    with r p1 have fa: "f a w1 = (Panicked, w')" by (simp add: bind_def)
    from hoare_Ok [OF p P] p1 Ok have "Q a w1" by simp
    from hoare_Panicked [OF f this fa] show ?thesis .
  next
    case (Exited m)
    with r p1 show ?thesis by (simp add: bind_def)
  next
    case Panicked
    with r p1 have "p w = (Panicked, w')" by (simp add: bind_def)
    from hoare_Panicked [OF p P this] show ?thesis .
  next
    case Blocked
    with r p1 show ?thesis by (simp add: bind_def)
  qed
next
  fix w w' assume P: "P w" and r: "bind p f w = (Blocked, w')"
  obtain r1 w1 where p1: "p w = (r1, w1)" by (cases "p w")
  show "E HBlock w'"
  proof (cases r1)
    case (Ok a)
    with r p1 have fa: "f a w1 = (Blocked, w')" by (simp add: bind_def)
    from hoare_Ok [OF p P] p1 Ok have "Q a w1" by simp
    from hoare_Blocked [OF f this fa] show ?thesis .
  next
    case (Exited m)
    with r p1 show ?thesis by (simp add: bind_def)
  next
    case Panicked
    with r p1 show ?thesis by (simp add: bind_def)
  next
    case Blocked
    with r p1 have "p w = (Blocked, w')" by (simp add: bind_def)
    from hoare_Blocked [OF p P this] show ?thesis .
  qed
qed

lemma hoare_seq:
  assumes "hoare P p (\<lambda>_. Q) E" and "hoare Q q R E"
  shows "hoare P (seq p q) R E"
  unfolding seq_def using assms by (rule hoare_bind)

lemma hoare_weaken:
  assumes h: "hoare P' p Q' E'"
    and P: "\<And>w. P w \<Longrightarrow> P' w" and Q: "\<And>a w. Q' a w \<Longrightarrow> Q a w" and E: "\<And>k w. E' k w \<Longrightarrow> E k w"
  shows "hoare P p Q E"
proof (rule hoareI)
  fix w a w' assume "P w" "p w = (Ok a, w')"
  then show "Q a w'" using hoare_Ok [OF h P] Q by blast
next
  fix w n w' assume "P w" "p w = (Exited n, w')"
  then show "E (HExit n) w'" using hoare_Exited [OF h P] E by blast
next
  fix w w' assume "P w" "p w = (Panicked, w')"
  then show "E HPanic w'" using hoare_Panicked [OF h P] E by blast
next
  fix w w' assume "P w" "p w = (Blocked, w')"
  then show "E HBlock w'" using hoare_Blocked [OF h P] E by blast
qed

lemma hoare_pre:
  assumes "hoare P' p Q E" and "\<And>w. P w \<Longrightarrow> P' w"
  shows "hoare P p Q E"
  using assms(1) by (rule hoare_weaken) (simp_all add: assms(2))

lemma hoare_ret:
  assumes "\<And>w. P w \<Longrightarrow> Q a w"
  shows "hoare P (ret a) Q E"
  using assms by (simp add: hoare_def ret_def)


lemma hoare_Print:
  assumes "\<And>w. P w \<Longrightarrow> Q () (w\<lparr>stdout := stdout w @ [s]\<rparr>)"
  shows "hoare P (fmt_Print s) Q E"
  using assms by (simp add: hoare_def fmt_Print_def)

lemma hoare_deref:
  assumes "\<And>x w. p = Some x \<Longrightarrow> P w \<Longrightarrow> Q x w" and "\<And>w. p = None \<Longrightarrow> P w \<Longrightarrow> E HPanic w"
  shows "hoare P (deref p) Q E"
  using assms by (cases p) (simp_all add: hoare_def deref_def ret_def panic_def)

lemma hoare_index:
  assumes "\<And>w. i < length xs \<Longrightarrow> P w \<Longrightarrow> Q (xs ! i) w"
    and "\<And>w. \<not> i < length xs \<Longrightarrow> P w \<Longrightarrow> E HPanic w"
  shows "hoare P (index xs i) Q E"
  using assms by (simp add: hoare_def index_def ret_def panic_def)

lemma hoare_if:
  assumes "c \<Longrightarrow> hoare P p Q E" and "\<not> c \<Longrightarrow> hoare P q Q E"
  shows "hoare P (if c then p else q) Q E"
  using assms by simp

lemma hoare_for_range:
  assumes "\<And>i x s. hoare (I s) (body i x s) I E"
  shows "hoare (I s) (for_range body xs i s) I E"
proof (induction xs arbitrary: i s)
  case Nil
  show ?case by (simp add: hoare_ret)
next
  case (Cons x xs)
  show ?case by (simp, rule hoare_bind [OF assms Cons])
qed

lemma hoare_issue:
  assumes "\<And>w. P w \<Longrightarrow> Q (err_of (api w) (history w) c)
             (w\<lparr>history := history w @ [(c, err_of (api w) (history w) c)]\<rparr>)"
  shows "hoare P (issue c) Q E"
  using assms by (simp add: hoare_def issue_apply)

lemma hoare_issue_get:
  assumes "\<And>w. P w \<Longrightarrow> Q (sel (api w) (history w) c, err_of (api w) (history w) c)
             (w\<lparr>history := history w @ [(c, err_of (api w) (history w) c)]\<rparr>)"
  shows "hoare P (issue_get sel c) Q E"
  using assms by (simp add: hoare_def issue_get_apply)

lemma hoare_onErrorFail:
  assumes "\<And>w. err = None \<Longrightarrow> P w \<Longrightarrow> Q () w"
    and "\<And>e w. err = Some e \<Longrightarrow> P w \<Longrightarrow>
          E (HExit 1) (w\<lparr>stdout := stdout w @ [m @ '': '' @ e @ nl],
             history := history w @ (case v of Sequential \<Rightarrow> [] | Hardened \<Rightarrow> [(Groups_Delete groupName, None)])\<rparr>)"
  shows "hoare P (onErrorFail v err m) Q E"
proof (cases err)
  case None
  with assms(1) show ?thesis by (simp add: onErrorFail_None hoare_ret)
next
  case (Some e)
  with assms(2) show ?thesis by (simp add: hoare_def onErrorFail_Some)
qed

lemma hoare_wg_Done:
  assumes "\<And>w. P w \<Longrightarrow> wg w \<noteq> 0 \<Longrightarrow> Q () (w\<lparr>wg := wg w - 1\<rparr>)"
    and "\<And>w. P w \<Longrightarrow> wg w = 0 \<Longrightarrow> E HPanic w"
  shows "hoare P wg_Done Q E"
  using assms by (simp add: hoare_def wg_Done_def)

lemma hoare_wg_Add:
  assumes "\<And>w. P w \<Longrightarrow> Q () (w\<lparr>wg := wg w + n\<rparr>)"
  shows "hoare P (wg_Add n) Q E"
  using assms by (simp add: hoare_def wg_Add_def)

lemma hoare_go:
  assumes "\<And>w. P w \<Longrightarrow> Q () (w\<lparr>pending := pending w @ [t]\<rparr>)"
  shows "hoare P (go t) Q E"
  using assms by (simp add: hoare_def go_def)

lemma hoare_yield:
  assumes "\<And>w. P w \<Longrightarrow> pending w = [] \<Longrightarrow> Q () w"
    and "\<And>w. P w \<Longrightarrow> pending w \<noteq> [] \<Longrightarrow> delay w \<noteq> 0 \<Longrightarrow> Q () (w\<lparr>delay := delay w - 1\<rparr>)"
    and "\<And>t ts. hoare (\<lambda>w'. \<exists>w. P w \<and> pending w = t # ts \<and> delay w = 0 \<and> w' = w\<lparr>pending := ts\<rparr>)
            (run_task t) Q E"
  shows "hoare P yield Q E"
  unfolding hoare_def
proof (intro allI impI)
  fix w assume P: "P w"
  show "case yield w of
        (Ok a, w') \<Rightarrow> Q a w'
      | (Exited n, w') \<Rightarrow> E (HExit n) w'
      | (Panicked, w') \<Rightarrow> E HPanic w'
      | (Blocked, w') \<Rightarrow> E HBlock w'"
  proof (cases "pending w")
    case Nil
    with assms(1) [OF P] show ?thesis by (simp add: yield_def)
  next
    case (Cons t ts)
    show ?thesis
    proof (cases "delay w = 0")
      case False
      with Cons assms(2) [OF P] show ?thesis by (simp add: yield_def)
    next
      case True
      from Cons True P have "\<exists>w0. P w0 \<and> pending w0 = t # ts \<and> delay w0 = 0
          \<and> w\<lparr>pending := ts\<rparr> = w0\<lparr>pending := ts\<rparr>"
        by (intro exI [of _ w]) simp
      from hoareD [OF assms(3) this]
      have "case run_task t (w\<lparr>pending := ts\<rparr>) of
        (Ok a, w') \<Rightarrow> Q a w'
      | (Exited n, w') \<Rightarrow> E (HExit n) w'
      | (Panicked, w') \<Rightarrow> E HPanic w'
      | (Blocked, w') \<Rightarrow> E HBlock w'" .
      with Cons True show ?thesis by (simp add: yield_def)
    qed
  qed
qed

lemma novm_after: "novm h \<Longrightarrow> vm_after_acct h"
  by (auto simp: novm_def vm_after_acct_def precedes_def list_all_length)

lemma vm_after_acct_snoc:
  assumes "vm_after_acct h" and "acct_ok \<in> set h \<or> \<not> is_createVM (fst ev)"
  shows "vm_after_acct (h @ [ev])"
  using assms unfolding vm_after_acct_def by (rule precedes_snoc)

lemma stage_inv_after: "stage_inv v s w \<Longrightarrow> vm_after_acct (history w)"
  by (cases s) (auto simp: stage_inv_def novm_after)

lemma sound_halt: "sound v s w \<Longrightarrow> sound_halt v HPanic w \<and> sound_halt v HBlock w"
  using stage_inv_after [of v s w] by (simp add: sound_def sound_halt_def)

lemma sound_stdout: "sound v s (w\<lparr>stdout := x\<rparr>) = sound v s w"
  by (cases s) (simp_all add: sound_def stage_inv_def)

lemma sound_delay: "sound v s (w\<lparr>delay := x\<rparr>) = sound v s w"
  by (cases s) (simp_all add: sound_def stage_inv_def)

lemma sound_after_stdout: "sound_after v s c e (w\<lparr>stdout := x\<rparr>) = sound_after v s c e w"
  by (cases s) (simp_all add: sound_after_def stage_inv_def)

lemma is_createVM_simps:
  "\<not> is_createVM (Groups_Delete g)" "\<not> is_createVM (Accounts_Create g n a)"
  by (simp_all add: is_createVM_def)

lemma sound_issue:
  assumes "sound v s w" and "s \<noteq> After \<Longrightarrow> \<not> is_createVM c"
  shows "sound_after v s c e (w\<lparr>history := history w @ [(c, e)]\<rparr>)"
proof -
  from assms(1) have ok: "all_ok (history w)" and i: "stage_inv v s w" by (simp_all add: sound_def)
  have "stage_inv v s (w\<lparr>history := history w @ [(c, e)]\<rparr>)"
  proof (cases s)
    case Before
    with i assms(2) show ?thesis by (simp add: stage_inv_def novm_def)
  next
    case Running
    with i assms(2) show ?thesis by (auto simp: stage_inv_def novm_def)
  next
    case After
    with i show ?thesis by (simp add: stage_inv_def vm_after_acct_snoc)
  qed
  with ok show ?thesis by (simp add: sound_after_def)
qed

lemma sound_after_None: "sound_after v s c None w \<Longrightarrow> sound v s w"
  by (auto simp: sound_after_def sound_def all_ok_def)

lemma fail_halt:
  assumes h: "history w = h @ [(c, Some e)]" "all_ok h" and a: "vm_after_acct (history w)"
  shows "sound_halt v (HExit 1) (w\<lparr>stdout := stdout w @ [label_of c @ '': '' @ e @ nl],
             history := history w @ (case v of Sequential \<Rightarrow> [] | Hardened \<Rightarrow> [(Groups_Delete groupName, None)])\<rparr>)"
proof -
  from a have "vm_after_acct (history w @ cleanup v)"
    by (cases v) (simp_all add: cleanup_def vm_after_acct_snoc is_createVM_simps)
  moreover have "fail_shape v (history w @ cleanup v) (stdout w @ [label_of c @ '': '' @ e @ nl])"
    using h by (auto simp: fail_shape_def)
  ultimately show ?thesis by (simp add: sound_halt_def cleanup_def)
qed

lemma sound_after_Some:
  assumes "sound_after v s c (Some e) w"
  shows "sound_halt v (HExit 1) (w\<lparr>stdout := stdout w @ [label_of c @ '': '' @ e @ nl],
             history := history w @ (case v of Sequential \<Rightarrow> [] | Hardened \<Rightarrow> [(Groups_Delete groupName, None)])\<rparr>)"
proof -
  from assms obtain h where h: "history w = h @ [(c, Some e)]" "all_ok h" and i: "stage_inv v s w"
    by (auto simp: sound_after_def)
  from i have "vm_after_acct (history w)" by (rule stage_inv_after)
  with h show ?thesis by (rule fail_halt)
qed

lemma hoare_onErrorFail_sound:
  "hoare (sound_after v s c err) (onErrorFail v err (label_of c)) (\<lambda>_. sound v s) (sound_halt v)"
proof (rule hoare_onErrorFail)
  fix w assume "err = None" "sound_after v s c err w"
  then show "sound v s w" by (simp add: sound_after_None)
next
  fix e w assume "err = Some e" "sound_after v s c err w"
  then show "sound_halt v (HExit 1) (w\<lparr>stdout := stdout w @ [label_of c @ '': '' @ e @ nl],
             history := history w @ (case v of Sequential \<Rightarrow> [] | Hardened \<Rightarrow> [(Groups_Delete groupName, None)])\<rparr>)"
    using sound_after_Some [of v s c e w] by simp
qed

lemma hoare_task_body:
  "hoare (\<lambda>w. all_ok (history w) \<and> novm (history w) \<and> pending w = [] \<and> wg w = 1)
     (run_task t) (\<lambda>_. sound Hardened Running) (sound_halt Hardened)"
proof -
  let ?P1 = "\<lambda>w::world. all_ok (history w) \<and> novm (history w) \<and> pending w = [] \<and> wg w = 1"
  let ?c = "Accounts_Create groupName accountName storageAccount"
  let ?P2 = "\<lambda>err (w::world). \<exists>h. history w = h @ [(?c, err)] \<and> all_ok h \<and> novm h \<and> pending w = [] \<and> wg w = 1"
  have body: "hoare ?P1 (createStorageAccount Hardened) (\<lambda>_. sound Hardened Running) (sound_halt Hardened)"
    unfolding createStorageAccount_def variant.case
  proof (rule hoare_seq [where Q = ?P1])
    show "hoare ?P1 (fmt_Print (''Starting to create storage account...'' @ nl)) (\<lambda>_. ?P1) (sound_halt Hardened)"
      by (rule hoare_Print) simp
  next
    show "hoare ?P1 (bind (issue ?c) (\<lambda>err. seq (onErrorFail Hardened err ''Create failed'')
            (seq (fmt_Print (''... storage account created'' @ nl)) wg_Done)))
          (\<lambda>_. sound Hardened Running) (sound_halt Hardened)"
    proof (rule hoare_bind [where Q = ?P2])
      show "hoare ?P1 (issue ?c) ?P2 (sound_halt Hardened)"
        by (rule hoare_issue) simp
    next
      fix err
      let ?P3 = "\<lambda>w::world. all_ok (history w) \<and> novm (history w) \<and> acct_ok \<in> set (history w)
                   \<and> pending w = [] \<and> wg w = 1"
      show "hoare (?P2 err) (seq (onErrorFail Hardened err ''Create failed'')
            (seq (fmt_Print (''... storage account created'' @ nl)) wg_Done))
          (\<lambda>_. sound Hardened Running) (sound_halt Hardened)"
      proof (rule hoare_seq [where Q = ?P3])
        show "hoare (?P2 err) (onErrorFail Hardened err ''Create failed'') (\<lambda>_. ?P3) (sound_halt Hardened)"
        proof (rule hoare_onErrorFail)
          fix w assume "err = None" "?P2 err w"
          then show "?P3 w"
            by (auto simp: all_ok_def novm_def acct_ok_def is_createVM_def)
        next
          fix e w assume e: "err = Some e" and p: "?P2 err w"
          then obtain h where h: "history w = h @ [(?c, Some e)]" "all_ok h" "novm h" by auto
          have "novm (history w)"
            using h by (simp add: novm_def is_createVM_def)
          then have "vm_after_acct (history w)" by (rule novm_after)
          from fail_halt [OF h(1,2) this, of Hardened]
          show "sound_halt Hardened (HExit 1) (w\<lparr>stdout := stdout w @ [''Create failed'' @ '': '' @ e @ nl],
             history := history w @ (case Hardened of Sequential \<Rightarrow> [] | Hardened \<Rightarrow> [(Groups_Delete groupName, None)])\<rparr>)"
            by (simp add: label_of_def)
        qed
      next
        show "hoare ?P3 (seq (fmt_Print (''... storage account created'' @ nl)) wg_Done)
            (\<lambda>_. sound Hardened Running) (sound_halt Hardened)"
        proof (rule hoare_seq [where Q = ?P3])
          show "hoare ?P3 (fmt_Print (''... storage account created'' @ nl)) (\<lambda>_. ?P3) (sound_halt Hardened)"
            by (rule hoare_Print) simp
        next
          show "hoare ?P3 wg_Done (\<lambda>_. sound Hardened Running) (sound_halt Hardened)"
            by (rule hoare_wg_Done) (simp_all add: sound_def stage_inv_def)
        qed
      qed
    qed
  qed
  then show ?thesis by (cases t) (simp add: run_task_def)
qed

lemma hoare_task_sound:
  "hoare (\<lambda>w'. \<exists>w. sound Hardened Running w \<and> pending w = t # ts \<and> delay w = 0 \<and> w' = w\<lparr>pending := ts\<rparr>)
     (run_task t) (\<lambda>_. sound Hardened Running) (sound_halt Hardened)"
  by (rule hoare_pre [OF hoare_task_body]) (auto simp: sound_def stage_inv_def)

lemma hoare_False: "(\<And>w. \<not> P w) \<Longrightarrow> hoare P p Q E"
  by (simp add: hoare_def)

lemma hoare_yield_sound: "hoare (sound v s) yield (\<lambda>_. sound v s) (sound_halt v)"
proof (rule hoare_yield)
  fix w assume "sound v s w" then show "sound v s w" .
next
  fix w assume "sound v s w" then show "sound v s (w\<lparr>delay := delay w - 1\<rparr>)" by (simp add: sound_delay)
next
  fix t ts
  let ?P = "\<lambda>w'::world. \<exists>w. sound v s w \<and> pending w = t # ts \<and> delay w = 0 \<and> w' = w\<lparr>pending := ts\<rparr>"
  show "hoare ?P (run_task t) (\<lambda>_. sound v s) (sound_halt v)"
  proof (cases "s = Running \<and> v = Hardened")
    case True
    with hoare_task_sound [of t ts] show ?thesis by simp
  next
    case False
    have "\<not> ?P w" for w
      using False by (cases s) (auto simp: sound_def stage_inv_def)
    then show ?thesis by (rule hoare_False)
  qed
qed

lemma hoare_call_sound:
  assumes "s \<noteq> After \<Longrightarrow> \<not> is_createVM c"
  shows "hoare (sound v s) (call c) (sound_after v s c) (sound_halt v)"
  unfolding call_def
proof (rule hoare_seq [OF hoare_yield_sound])
  show "hoare (sound v s) (issue c) (sound_after v s c) (sound_halt v)"
    by (rule hoare_issue) (simp add: sound_issue assms)
qed

lemma hoare_call_get_sound:
  assumes "s \<noteq> After \<Longrightarrow> \<not> is_createVM c"
  shows "hoare (sound v s) (call_get sel c) (\<lambda>(x, err). sound_after v s c err) (sound_halt v)"
  unfolding call_get_def
proof (rule hoare_seq [OF hoare_yield_sound])
  show "hoare (sound v s) (issue_get sel c) (\<lambda>(x, err). sound_after v s c err) (sound_halt v)"
    by (rule hoare_issue_get) (simp add: sound_issue assms)
qed

lemma sound_call:
  assumes "m = label_of c" and "s \<noteq> After \<Longrightarrow> \<not> is_createVM c"
    and "hoare (sound v s) k Q (sound_halt v)"
  shows "hoare (sound v s) (bind (call c) (\<lambda>err. seq (onErrorFail v err m) k)) Q (sound_halt v)"
proof (rule hoare_bind [OF hoare_call_sound])
  show "s \<noteq> After \<Longrightarrow> \<not> is_createVM c" by (rule assms(2))
next
  fix err
  show "hoare (sound_after v s c err) (seq (onErrorFail v err m) k) Q (sound_halt v)"
    unfolding assms(1) by (rule hoare_seq [OF hoare_onErrorFail_sound assms(3)])
qed

lemma sound_call_end:
  assumes "m = label_of c" and "s \<noteq> After \<Longrightarrow> \<not> is_createVM c"
  shows "hoare (sound v s) (bind (call c) (\<lambda>err. onErrorFail v err m)) (\<lambda>_. sound v s) (sound_halt v)"
proof (rule hoare_bind [OF hoare_call_sound])
  show "s \<noteq> After \<Longrightarrow> \<not> is_createVM c" by (rule assms(2))
next
  fix err
  show "hoare (sound_after v s c err) (onErrorFail v err m) (\<lambda>_. sound v s) (sound_halt v)"
    unfolding assms(1) by (rule hoare_onErrorFail_sound)
qed

lemma sound_call_get:
  assumes "m = label_of c" and "s \<noteq> After \<Longrightarrow> \<not> is_createVM c"
    and "\<And>x. hoare (sound v s) (k x) Q (sound_halt v)"
  shows "hoare (sound v s) (bind (call_get sel c) (\<lambda>(x, err). seq (onErrorFail v err m) (k x))) Q (sound_halt v)"
proof (rule hoare_bind [OF hoare_call_get_sound])
  show "s \<noteq> After \<Longrightarrow> \<not> is_createVM c" by (rule assms(2))
next
  fix a
  show "hoare (case a of (x, err) \<Rightarrow> sound_after v s c err)
          (case a of (x, err) \<Rightarrow> seq (onErrorFail v err m) (k x)) Q (sound_halt v)"
  proof (cases a)
    case (Pair x err)
    show ?thesis
      unfolding Pair prod.case assms(1) by (rule hoare_seq [OF hoare_onErrorFail_sound assms(3)])
  qed
qed

lemma sound_Print_end: "hoare (sound v s) (fmt_Print x) (\<lambda>_. sound v s) (sound_halt v)"
  by (rule hoare_Print) (simp add: sound_stdout)

lemma sound_Print:
  assumes "hoare (sound v s) k Q (sound_halt v)"
  shows "hoare (sound v s) (seq (fmt_Print x) k) Q (sound_halt v)"
  by (rule hoare_seq [OF sound_Print_end assms])

lemma sound_ret: "hoare (sound v s) (ret x) (\<lambda>_. sound v s) (sound_halt v)"
  by (rule hoare_ret)

lemma sound_deref_end: "hoare (sound v s) (deref p) (\<lambda>_. sound v s) (sound_halt v)"
  by (rule hoare_deref) (simp_all add: sound_halt)

lemma sound_index_end: "hoare (sound v s) (index xs i) (\<lambda>_. sound v s) (sound_halt v)"
  by (rule hoare_index) (simp_all add: sound_halt)

lemma sound_bind:
  assumes "hoare (sound v s) p (\<lambda>_. sound v s) (sound_halt v)" and "\<And>a. hoare (sound v s) (f a) Q (sound_halt v)"
  shows "hoare (sound v s) (bind p f) Q (sound_halt v)"
  using assms by (rule hoare_bind)

lemma sound_seq:
  assumes "hoare (sound v s) p (\<lambda>_. sound v s) (sound_halt v)" and "hoare (sound v s) q Q (sound_halt v)"
  shows "hoare (sound v s) (seq p q) Q (sound_halt v)"
  using assms by (rule hoare_seq)

lemma sound_deref:
  assumes "\<And>x. hoare (sound v s) (k x) Q (sound_halt v)"
  shows "hoare (sound v s) (bind (deref p) k) Q (sound_halt v)"
  by (rule sound_bind [OF sound_deref_end assms])

lemma sound_index:
  assumes "\<And>x. hoare (sound v s) (k x) Q (sound_halt v)"
  shows "hoare (sound v s) (bind (index xs i) k) Q (sound_halt v)"
  by (rule sound_bind [OF sound_index_end assms])

lemma sound_for_range:
  assumes "\<And>i x a. hoare (sound v s) (body i x a) (\<lambda>_. sound v s) (sound_halt v)"
  shows "hoare (sound v s) (for_range body xs i a) (\<lambda>_. sound v s) (sound_halt v)"
  by (rule hoare_for_range [where I = "\<lambda>_. sound v s"]) (rule assms)

lemma sound_with_nic_props:
  assumes "\<And>p. hoare (sound v s) (f p) (\<lambda>_. sound v s) (sound_halt v)"
  shows "hoare (sound v s) (with_nic_props f nic) (\<lambda>_. sound v s) (sound_halt v)"
  unfolding with_nic_props_def
  by (intro sound_deref sound_bind [OF assms] sound_ret)

lemma sound_with_ipconfig0:
  assumes "\<And>c. hoare (sound v s) (f c) (\<lambda>_. sound v s) (sound_halt v)"
  shows "hoare (sound v s) (with_ipconfig0 f nic) (\<lambda>_. sound v s) (sound_halt v)"
  unfolding with_ipconfig0_def
  by (intro sound_with_nic_props sound_deref sound_index sound_bind [OF assms] sound_ret)

lemma sound_with_ipconfig0_props:
  "hoare (sound v s) (with_ipconfig0_props g nic) (\<lambda>_. sound v s) (sound_halt v)"
  unfolding with_ipconfig0_props_def
  by (intro sound_with_ipconfig0 sound_deref sound_ret)

lemma sound_createResourceGroup:
  "hoare (sound v s) (createResourceGroup v) (\<lambda>_. sound v s) (sound_halt v)"
  unfolding createResourceGroup_def
  by (intro sound_Print sound_call_end) (simp_all add: label_of_def is_createVM_def)

lemma sound_createVirtualNetwork:
  "hoare (sound v s) (createVirtualNetwork v) (\<lambda>_. sound v s) (sound_halt v)"
  unfolding createVirtualNetwork_def
  by (intro sound_Print sound_call_end) (simp_all add: label_of_def is_createVM_def)

lemma hoare_case_prod:
  assumes "\<And>x y. hoare P (f x y) Q E"
  shows "hoare P (case a of (x, y) \<Rightarrow> f x y) Q E"
  by (cases a) (simp add: assms)

lemmas sound_bind_props = sound_bind [OF sound_with_ipconfig0_props]

lemmas sound_bind_ipconfig0 = sound_bind [OF sound_with_ipconfig0]

lemmas sound_bind_nic_props = sound_bind [OF sound_with_nic_props]

lemmas sound_bind_if = sound_bind [OF hoare_if]

lemma sound_createSubnets:
  "hoare (sound v s) (createSubnets v) (\<lambda>_. sound v s) (sound_halt v)"
  unfolding createSubnets_def
proof (intro sound_Print sound_bind [OF sound_for_range] hoare_case_prod sound_ret)
  fix i x a
  show "hoare (sound v s) (createSubnets_body v i x a) (\<lambda>_. sound v s) (sound_halt v)"
    unfolding createSubnets_body_def Let_def
    by (intro hoare_case_prod sound_Print sound_deref sound_call sound_call_get sound_ret)
      (simp_all add: label_of_def is_createVM_def)
qed

lemma sound_createPIP:
  "hoare (sound v s) (createPIP v pipName) (\<lambda>_. sound v s) (sound_halt v)"
  unfolding createPIP_def
  by (intro sound_Print sound_call sound_call_get sound_ret) (simp_all add: label_of_def is_createVM_def)

lemma sound_createNICs:
  "hoare (sound v s) (createNICs v subnets pip) (\<lambda>_. sound v s) (sound_halt v)"
  unfolding createNICs_def
proof (intro sound_Print sound_bind [OF sound_for_range] hoare_case_prod sound_ret)
  fix i x a
  show "hoare (sound v s) (createNICs_body v subnets pip i x a) (\<lambda>_. sound v s) (sound_halt v)"
    unfolding createNICs_body_def
    by (intro hoare_case_prod sound_index sound_deref sound_Print sound_bind_ipconfig0 sound_bind_props sound_bind_if
        sound_bind_nic_props sound_with_ipconfig0_props sound_call sound_call_get sound_ret)
      (simp_all add: label_of_def is_createVM_def)
qed

lemma sound_isFrontEnd: "hoare (sound v s) (isFrontEnd v nic) (\<lambda>_. sound v s) (sound_halt v)"
proof (cases v)
  case Sequential
  show ?thesis unfolding isFrontEnd_def Sequential variant.case
    by (intro sound_deref sound_ret)
next
  case Hardened
  show ?thesis unfolding isFrontEnd_def Hardened variant.case
    by (intro hoare_if sound_deref sound_ret)
qed

lemma sound_buildNIRs:
  "hoare (sound v s) (buildNIRs v nics) (\<lambda>_. sound v s) (sound_halt v)"
  unfolding buildNIRs_def
proof (intro sound_Print sound_for_range)
  fix i x a
  show "hoare (sound v s) (buildNIRs_body v i x a) (\<lambda>_. sound v s) (sound_halt v)"
    unfolding buildNIRs_body_def Let_def
    by (intro sound_deref sound_Print sound_bind [OF sound_isFrontEnd] hoare_if sound_ret)
qed

lemma sound_createVM:
  "hoare (sound v After) (createVM v nirs) (\<lambda>_. sound v After) (sound_halt v)"
  unfolding createVM_def Let_def
  by (intro sound_Print sound_call_end) (simp_all add: label_of_def)

lemma sound_updateNICwithPIP:
  "hoare (sound v s) (updateNICwithPIP v nicName nics pip) (\<lambda>_. sound v s) (sound_halt v)"
  unfolding updateNICwithPIP_def
proof (intro sound_bind [OF sound_for_range] sound_deref sound_Print sound_index sound_bind_props sound_call sound_ret)
  fix i x a
  show "hoare (sound v s) (findNIC_body nicName i x a) (\<lambda>_. sound v s) (sound_halt v)"
    unfolding findNIC_body_def by (intro sound_deref sound_ret)
qed (simp_all add: label_of_def is_createVM_def)

lemma sound_printNIC: "hoare (sound v s) (printNIC nic) (\<lambda>_. sound v s) (sound_halt v)"
  unfolding printNIC_def
  by (intro sound_deref sound_Print sound_index sound_Print_end)

lemma sound_listNICs: "hoare (sound v s) (listNICs v) (\<lambda>_. sound v s) (sound_halt v)"
  unfolding listNICs_def
proof (intro sound_Print sound_call_get)
  fix x :: "Interface list option"
  show "hoare (sound v s)
          (case x of
             None \<Rightarrow> fmt_Print (''There are no NICs in '' @ groupName @ '' resource group'' @ nl)
           | Some nics \<Rightarrow>
               if length nics = 0
               then fmt_Print (''There are no NICs in '' @ groupName @ '' resource group'' @ nl)
               else for_range (\<lambda>_ nic _. printNIC nic) nics 0 ())
          (\<lambda>_. sound v s) (sound_halt v)"
    by (cases x) (simp_all add: sound_Print_end sound_for_range sound_printNIC)
qed (simp_all add: label_of_def is_createVM_def)

lemma sound_deleteNIC: "hoare (sound v s) (deleteNIC v nicName) (\<lambda>_. sound v s) (sound_halt v)"
  unfolding deleteNIC_def
  by (intro sound_Print sound_call sound_call_end) (simp_all add: label_of_def is_createVM_def)

lemma sound_deleteResourceGroup: "hoare (sound v s) (deleteResourceGroup v) (\<lambda>_. sound v s) (sound_halt v)"
  unfolding deleteResourceGroup_def
  by (intro sound_Print sound_call_end) (simp_all add: label_of_def is_createVM_def)

lemma sound_Scanln: "hoare (sound v s) fmt_Scanln (\<lambda>_. sound v s) (sound_halt v)"
  unfolding fmt_Scanln_def by (rule sound_ret)

lemma sound_main_rest: "hoare (sound v After) (main_rest v nics nirs) (\<lambda>_. sound v After) (sound_halt v)"
  unfolding main_rest_def
  by (intro sound_seq [OF sound_createVM] sound_bind [OF sound_createPIP] sound_bind [OF sound_updateNICwithPIP]
      sound_seq [OF sound_listNICs] sound_Print sound_seq [OF sound_Scanln] sound_seq [OF sound_deleteNIC]
      sound_deleteResourceGroup)

lemma sound_createStorageAccount_Sequential:
  "hoare (sound Sequential Before) (createStorageAccount Sequential) (\<lambda>_. sound Sequential After) (sound_halt Sequential)"
proof -
  let ?c = "Accounts_Create groupName accountName storageAccount"
  let ?P = "\<lambda>err (w::world). \<exists>h. history w = h @ [(?c, err)] \<and> all_ok h \<and> novm h
              \<and> pending w = [] \<and> wg w = 0"
  show ?thesis
    unfolding createStorageAccount_def variant.case
  proof (rule sound_Print, rule hoare_bind [where Q = ?P])
    show "hoare (sound Sequential Before) (issue ?c) ?P (sound_halt Sequential)"
      by (rule hoare_issue) (simp add: sound_def stage_inv_def)
  next
    fix err
    show "hoare (?P err) (onErrorFail Sequential err ''Create failed'')
            (\<lambda>_. sound Sequential After) (sound_halt Sequential)"
    proof (rule hoare_onErrorFail)
      fix w assume "err = None" "?P err w"
      then obtain h where h: "history w = h @ [acct_ok]" "all_ok h" "novm h"
        and p: "pending w = []" "wg w = 0"
        by (auto simp: acct_ok_def)
      from h(3) have "vm_after_acct h" by (rule novm_after)
      then have "vm_after_acct (h @ [acct_ok])"
        by (rule vm_after_acct_snoc) (simp add: acct_ok_def is_createVM_def)
      with h p show "sound Sequential After w"
        by (simp add: sound_def stage_inv_def all_ok_def acct_ok_def)
    next
      fix e w assume e: "err = Some e" and p: "?P err w"
      then obtain h where h: "history w = h @ [(?c, Some e)]" "all_ok h" "novm h" by auto
      have "novm (history w)"
        using h by (simp add: novm_def is_createVM_def)
      then have "vm_after_acct (history w)" by (rule novm_after)
      from fail_halt [OF h(1,2) this, of Sequential]
      show "sound_halt Sequential (HExit 1) (w\<lparr>stdout := stdout w @ [''Create failed'' @ '': '' @ e @ nl],
             history := history w @ (case Sequential of Sequential \<Rightarrow> [] | Hardened \<Rightarrow> [(Groups_Delete groupName, None)])\<rparr>)"
        by (simp add: label_of_def)
    qed
  qed
qed

lemma sound_spawn:
  assumes "hoare (sound Hardened Running) k Q (sound_halt Hardened)"
  shows "hoare (sound Hardened Before) (seq (wg_Add 1) (seq (go CreateStorageAccountTask) k)) Q (sound_halt Hardened)"
proof (rule hoare_seq [where Q = "\<lambda>w. all_ok (history w) \<and> novm (history w) \<and> pending w = [] \<and> wg w = 1"])
  show "hoare (sound Hardened Before) (wg_Add 1)
          (\<lambda>_ w. all_ok (history w) \<and> novm (history w) \<and> pending w = [] \<and> wg w = 1) (sound_halt Hardened)"
    by (rule hoare_wg_Add) (simp add: sound_def stage_inv_def)
next
  show "hoare (\<lambda>w. all_ok (history w) \<and> novm (history w) \<and> pending w = [] \<and> wg w = 1)
          (seq (go CreateStorageAccountTask) k) Q (sound_halt Hardened)"
  proof (rule hoare_seq [OF _ assms])
    show "hoare (\<lambda>w. all_ok (history w) \<and> novm (history w) \<and> pending w = [] \<and> wg w = 1)
            (go CreateStorageAccountTask) (\<lambda>_. sound Hardened Running) (sound_halt Hardened)"
      by (rule hoare_go) (simp add: sound_def stage_inv_def)
  qed
qed

lemma Running_joined:
  assumes "sound Hardened Running w" and "wg w = 0"
  shows "sound Hardened After w"
  using assms by (auto simp: sound_def stage_inv_def novm_after)

lemma sound_wg_Wait:
  "hoare (sound Hardened Running) wg_Wait (\<lambda>_. sound Hardened After) (sound_halt Hardened)"
proof (rule hoareI)
  fix w a w' assume g: "sound Hardened Running w" and r: "wg_Wait w = (Ok a, w')"
  show "sound Hardened After w'"
  proof (cases "wg w = 0")
    case True
    with r have "w' = w" by (simp add: wg_Wait_def)
    with g True show ?thesis by (simp add: Running_joined)
  next
    case False
    with g have p: "pending w = [CreateStorageAccountTask]" "wg w = 1"
      by (auto simp: sound_def stage_inv_def)
    obtain r1 w1 where t: "run_task CreateStorageAccountTask (w\<lparr>pending := []\<rparr>) = (r1, w1)"
      by (cases "run_task CreateStorageAccountTask (w\<lparr>pending := []\<rparr>)")
    have pre: "all_ok (history (w\<lparr>pending := []\<rparr>)) \<and> novm (history (w\<lparr>pending := []\<rparr>))
        \<and> pending (w\<lparr>pending := []\<rparr>) = [] \<and> wg (w\<lparr>pending := []\<rparr>) = 1"
      using g p by (simp add: sound_def stage_inv_def)
    from r p t False obtain u where r1: "r1 = Ok u" and w1: "wg w1 = 0" "w' = w1"
      by (cases r1) (auto simp: wg_Wait_def bind_def seq_def ret_def split: if_splits)
    from hoare_Ok [OF hoare_task_body pre] t r1 have "sound Hardened Running w1" by simp
    with w1 show ?thesis by (simp add: Running_joined)
  qed
next
  fix w n w' assume g: "sound Hardened Running w" and r: "wg_Wait w = (Exited n, w')"
  show "sound_halt Hardened (HExit n) w'"
  proof (cases "wg w = 0")
    case True
    with r show ?thesis by (simp add: wg_Wait_def)
  next
    case False
    with g have p: "pending w = [CreateStorageAccountTask]" "wg w = 1"
      by (auto simp: sound_def stage_inv_def)
    obtain r1 w1 where t: "run_task CreateStorageAccountTask (w\<lparr>pending := []\<rparr>) = (r1, w1)"
      by (cases "run_task CreateStorageAccountTask (w\<lparr>pending := []\<rparr>)")
    have pre: "all_ok (history (w\<lparr>pending := []\<rparr>)) \<and> novm (history (w\<lparr>pending := []\<rparr>))
        \<and> pending (w\<lparr>pending := []\<rparr>) = [] \<and> wg (w\<lparr>pending := []\<rparr>) = 1"
      using g p by (simp add: sound_def stage_inv_def)
    from r p t False have "r1 = Exited n \<and> w' = w1"
      by (cases r1) (auto simp: wg_Wait_def bind_def seq_def ret_def split: if_splits)
    with hoare_Exited [OF hoare_task_body pre] t show ?thesis by simp
  qed
next
  fix w w' assume g: "sound Hardened Running w" and r: "wg_Wait w = (Panicked, w')"
  show "sound_halt Hardened HPanic w'"
  proof (cases "wg w = 0")
    case True
    with r show ?thesis by (simp add: wg_Wait_def)
  next
    case False
    with g have p: "pending w = [CreateStorageAccountTask]" "wg w = 1"
      by (auto simp: sound_def stage_inv_def)
    obtain r1 w1 where t: "run_task CreateStorageAccountTask (w\<lparr>pending := []\<rparr>) = (r1, w1)"
      by (cases "run_task CreateStorageAccountTask (w\<lparr>pending := []\<rparr>)")
    have pre: "all_ok (history (w\<lparr>pending := []\<rparr>)) \<and> novm (history (w\<lparr>pending := []\<rparr>))
        \<and> pending (w\<lparr>pending := []\<rparr>) = [] \<and> wg (w\<lparr>pending := []\<rparr>) = 1"
      using g p by (simp add: sound_def stage_inv_def)
    from r p t False have "r1 = Panicked \<and> w' = w1"
      by (cases r1) (auto simp: wg_Wait_def bind_def seq_def ret_def split: if_splits)
    with hoare_Panicked [OF hoare_task_body pre] t show ?thesis by simp
  qed
next
  fix w w' assume g: "sound Hardened Running w" and r: "wg_Wait w = (Blocked, w')"
  show "sound_halt Hardened HBlock w'"
  proof (cases "wg w = 0")
    case True
    with r show ?thesis by (simp add: wg_Wait_def)
  next
    case False
    with g have p: "pending w = [CreateStorageAccountTask]" "wg w = 1"
      by (auto simp: sound_def stage_inv_def)
    obtain r1 w1 where t: "run_task CreateStorageAccountTask (w\<lparr>pending := []\<rparr>) = (r1, w1)"
      by (cases "run_task CreateStorageAccountTask (w\<lparr>pending := []\<rparr>)")
    have pre: "all_ok (history (w\<lparr>pending := []\<rparr>)) \<and> novm (history (w\<lparr>pending := []\<rparr>))
        \<and> pending (w\<lparr>pending := []\<rparr>) = [] \<and> wg (w\<lparr>pending := []\<rparr>) = 1"
      using g p by (simp add: sound_def stage_inv_def)
    from r p t False have c: "r1 = Blocked \<and> w' = w1 \<or> (\<exists>u. r1 = Ok u \<and> w' = w1)"
      by (cases r1) (auto simp: wg_Wait_def bind_def seq_def ret_def split: if_splits)
    then show ?thesis
    proof
      assume "r1 = Blocked \<and> w' = w1"
      with hoare_Blocked [OF hoare_task_body pre] t show ?thesis by simp
    next
      assume "\<exists>u. r1 = Ok u \<and> w' = w1"
      then obtain u where "r1 = Ok u" "w' = w1" by blast
      with hoare_Ok [OF hoare_task_body pre] t have "sound Hardened Running w'" by simp
      then show ?thesis by (simp add: sound_halt)
    qed
  qed
qed

lemma sound_main: "hoare (sound v Before) (main v) (\<lambda>_. sound v After) (sound_halt v)"
proof (cases v)
  case Sequential
  show ?thesis
    unfolding main_def Sequential variant.case
    by (intro sound_seq [OF sound_createResourceGroup] sound_seq [OF sound_createVirtualNetwork]
        sound_bind [OF sound_createSubnets] sound_bind [OF sound_createPIP] sound_bind [OF sound_createNICs]
        hoare_seq [OF sound_createStorageAccount_Sequential] sound_bind [OF sound_buildNIRs] sound_main_rest)
next
  case Hardened
  show ?thesis
    unfolding main_def Hardened variant.case
    by (intro sound_seq [OF sound_createResourceGroup] sound_spawn sound_seq [OF sound_createVirtualNetwork]
        sound_bind [OF sound_createSubnets] sound_bind [OF sound_createPIP] sound_bind [OF sound_createNICs]
        sound_bind [OF sound_buildNIRs] hoare_seq [OF sound_wg_Wait] sound_main_rest)
qed

lemma sound_start: "sound v Before (start r env oe te d)"
  by (simp add: sound_def stage_inv_def start_def all_ok_def novm_def)

lemma main_outcome:
  "case main v (start r env oe te d) of
     (Ok a, w') \<Rightarrow> sound v After w'
   | (Exited n, w') \<Rightarrow> sound_halt v (HExit n) w'
   | (Panicked, w') \<Rightarrow> sound_halt v HPanic w'
   | (Blocked, w') \<Rightarrow> sound_halt v HBlock w'"
  by (rule hoareD [OF sound_main sound_start])

lemma main_vm_after_acct: "vm_after_acct (history (snd (main v (start r env oe te d))))"
proof -
  obtain res w where m: "main v (start r env oe te d) = (res, w)"
    by (cases "main v (start r env oe te d)")
  with main_outcome [of v r env oe te d] have "vm_after_acct (history w)"
    by (cases res) (simp_all add: sound_def sound_halt_def stage_inv_def)
  with m show ?thesis by simp
qed


section \<open>Rules for assertions on the history\<close>

lemma bind_issue:
  "bind (issue c) f w =
     f (err_of (api w) (history w) c) (w\<lparr>history := history w @ [(c, err_of (api w) (history w) c)]\<rparr>)"
  by (simp add: bind_def issue_apply)

lemma run_task_history:
  "case run_task t w of
     (Ok a, w') \<Rightarrow> history w' = history w @ [acct_ok]
   | (Exited n, w') \<Rightarrow> (\<exists>e. history w' = history w
        @ [(Accounts_Create groupName accountName storageAccount, Some e), (Groups_Delete groupName, None)])
   | (Panicked, w') \<Rightarrow> history w' = history w @ [acct_ok]
   | (Blocked, w') \<Rightarrow> False"
proof -
  let ?w1 = "w\<lparr>stdout := stdout w @ [''Starting to create storage account...'' @ nl]\<rparr>"
  let ?c = "Accounts_Create groupName accountName storageAccount"
  show ?thesis
  proof (cases "err_of (api w) (history w) ?c")
    case None
    then show ?thesis
      by (cases t)
        (simp add: run_task_def createStorageAccount_def seq_Print bind_issue seq_onErrorFail_None
          wg_Done_def acct_ok_def)
  next
    case (Some e)
    then show ?thesis
      by (cases t)
        (simp add: run_task_def createStorageAccount_def seq_Print bind_issue seq_onErrorFail_Some)
  qed
qed

lemma hoare_yield_hist:
  assumes ok: "\<And>h. R h \<Longrightarrow> R (h @ [acct_ok])"
    and ex: "\<And>h e. R h \<Longrightarrow> Eh (HExit 1) (h @ [(Accounts_Create groupName accountName storageAccount, Some e),
                (Groups_Delete groupName, None)])"
    and pa: "\<And>h. R h \<Longrightarrow> Eh HPanic (h @ [acct_ok])"
  shows "hoare (\<lambda>w. R (history w)) yield (\<lambda>_ w. R (history w)) (\<lambda>k w. Eh k (history w))"
proof (rule hoare_yield)
  fix w :: world assume "R (history w)" then show "R (history w)" .
next
  fix w :: world assume "R (history w)"
  then show "R (history (w\<lparr>delay := delay w - 1\<rparr>))" by simp
next
  fix t ts
  show "hoare (\<lambda>w'. \<exists>w. R (history w) \<and> pending w = t # ts \<and> delay w = 0 \<and> w' = w\<lparr>pending := ts\<rparr>)
          (run_task t) (\<lambda>_ w. R (history w)) (\<lambda>k w. Eh k (history w))"
  proof (rule hoareI)
    fix w a w'
    assume "\<exists>w0. R (history w0) \<and> pending w0 = t # ts \<and> delay w0 = 0 \<and> w = w0\<lparr>pending := ts\<rparr>"
      and r: "run_task t w = (Ok a, w')"
    then have R: "R (history w)" by auto
    from run_task_history [where t = t and w = w] r have "history w' = history w @ [acct_ok]" by simp
    with ok [OF R] show "R (history w')" by simp
  next
    fix w n w'
    assume "\<exists>w0. R (history w0) \<and> pending w0 = t # ts \<and> delay w0 = 0 \<and> w = w0\<lparr>pending := ts\<rparr>"
      and r: "run_task t w = (Exited n, w')"
    then have R: "R (history w)" by auto
    have n: "n = 1"
    proof (cases "err_of (api w) (history w) (Accounts_Create groupName accountName storageAccount)")
      case None
      with r show ?thesis
        by (cases t)
          (simp add: run_task_def createStorageAccount_def seq_Print bind_issue
            seq_onErrorFail_None wg_Done_def split: if_splits)
    next
      case (Some e)
      with r show ?thesis
        by (cases t)
          (simp add: run_task_def createStorageAccount_def seq_Print bind_issue
            seq_onErrorFail_Some)
    qed
    from run_task_history [where t = t and w = w] r obtain e where "history w' = history w
        @ [(Accounts_Create groupName accountName storageAccount, Some e), (Groups_Delete groupName, None)]"
      by auto
    with ex [OF R, of e] n show "Eh (HExit n) (history w')" by simp
  next
    fix w w'
    assume "\<exists>w0. R (history w0) \<and> pending w0 = t # ts \<and> delay w0 = 0 \<and> w = w0\<lparr>pending := ts\<rparr>"
      and r: "run_task t w = (Panicked, w')"
    then have R: "R (history w)" by auto
    from run_task_history [where t = t and w = w] r have "history w' = history w @ [acct_ok]" by simp
    with pa [OF R] show "Eh HPanic (history w')" by simp
  next
    fix w w'
    assume r: "run_task t w = (Blocked, w')"
    with run_task_history [where t = t and w = w] show "Eh HBlock (history w')" by simp
  qed
qed

lemma hoare_call_hist:
  assumes "inert R Eh"
  shows "hoare (\<lambda>w. R (history w)) (call c) (\<lambda>e w. \<exists>h. history w = h @ [(c, e)] \<and> R h)
           (\<lambda>k w. Eh k (history w))"
  unfolding call_def
proof (rule hoare_seq [where Q = "\<lambda>w. R (history w)"])
  show "hoare (\<lambda>w. R (history w)) yield (\<lambda>_ w. R (history w)) (\<lambda>k w. Eh k (history w))"
    using assms by (intro hoare_yield_hist) (simp_all add: inert_def)
next
  show "hoare (\<lambda>w. R (history w)) (issue c) (\<lambda>e w. \<exists>h. history w = h @ [(c, e)] \<and> R h)
          (\<lambda>k w. Eh k (history w))"
    by (rule hoare_issue) simp
qed


lemma hoare_check_hist:
  assumes "\<And>h. err = None \<Longrightarrow> R h \<Longrightarrow> R' (h @ [(c, None)])"
    and "\<And>h e. err = Some e \<Longrightarrow> R h \<Longrightarrow> Eh (HExit 1) (h @ (c, Some e) # cleanup v)"
  shows "hoare (\<lambda>w. \<exists>h. history w = h @ [(c, err)] \<and> R h) (onErrorFail v err m)
           (\<lambda>_ w. R' (history w)) (\<lambda>k w. Eh k (history w))"
proof (rule hoare_onErrorFail)
  fix w :: world assume "err = None" "\<exists>h. history w = h @ [(c, err)] \<and> R h"
  with assms(1) show "R' (history w)" by auto
next
  fix e and w :: world assume "err = Some e" "\<exists>h. history w = h @ [(c, err)] \<and> R h"
  with assms(2) [of e] show "Eh (HExit 1) (history (w\<lparr>stdout := stdout w @ [m @ '': '' @ e @ nl],
      history := history w @ (case v of Sequential \<Rightarrow> [] | Hardened \<Rightarrow> [(Groups_Delete groupName, None)])\<rparr>))"
    by (auto simp: cleanup_def)
qed

lemma H_call:
  assumes "inert R Eh"
    and "\<And>h. R h \<Longrightarrow> R' (h @ [(c, None)])"
    and "\<And>h e. R h \<Longrightarrow> Eh (HExit 1) (h @ (c, Some e) # cleanup v)"
    and "hoare (\<lambda>w. R' (history w)) k Q (\<lambda>k w. Eh k (history w))"
  shows "hoare (\<lambda>w. R (history w)) (bind (call c) (\<lambda>err. seq (onErrorFail v err m) k)) Q
           (\<lambda>k w. Eh k (history w))"
proof (rule hoare_bind [OF hoare_call_hist [OF assms(1)]])
  fix err
  show "hoare (\<lambda>w. \<exists>h. history w = h @ [(c, err)] \<and> R h) (seq (onErrorFail v err m) k) Q
          (\<lambda>k w. Eh k (history w))"
    by (rule hoare_seq [OF hoare_check_hist assms(4)])
      (rule assms(2), assumption, rule assms(3), assumption)
qed

lemma H_call_end:
  assumes "inert R Eh"
    and "\<And>h. R h \<Longrightarrow> R' (h @ [(c, None)])"
    and "\<And>h e. R h \<Longrightarrow> Eh (HExit 1) (h @ (c, Some e) # cleanup v)"
  shows "hoare (\<lambda>w. R (history w)) (bind (call c) (\<lambda>err. onErrorFail v err m))
           (\<lambda>_ w. R' (history w)) (\<lambda>k w. Eh k (history w))"
proof (rule hoare_bind [OF hoare_call_hist [OF assms(1)]])
  fix err
  show "hoare (\<lambda>w. \<exists>h. history w = h @ [(c, err)] \<and> R h) (onErrorFail v err m)
          (\<lambda>_ w. R' (history w)) (\<lambda>k w. Eh k (history w))"
    by (rule hoare_check_hist) (rule assms(2), assumption, rule assms(3), assumption)
qed


lemma H_Print:
  assumes "hoare (\<lambda>w. R (history w)) k Q E"
  shows "hoare (\<lambda>w. R (history w)) (seq (fmt_Print x) k) Q E"
  by (rule hoare_seq [OF _ assms]) (rule hoare_Print, simp)

lemma deleteNIC_order:
  fixes H :: "event list" and nicName :: string
  defines "VM \<equiv> (VirtualMachines_Delete groupName vmName, None)"
  defines "D \<equiv> (\<lambda>c. c = Interfaces_Delete groupName nicName)"
  shows "hoare (\<lambda>w. history w = H) (deleteNIC v nicName)
     (\<lambda>_ w. \<exists>n. history w = H @ n \<and> precedes VM D n \<and> n \<noteq> []
              \<and> last n = (Interfaces_Delete groupName nicName, None))
     (\<lambda>k w. \<exists>n. history w = H @ n \<and> precedes VM D n)"
proof -
  let ?R0 = "\<lambda>h. \<exists>n. h = H @ n \<and> precedes VM D n \<and> (\<forall>ev \<in> set n. \<not> D (fst ev))"
  let ?R1 = "\<lambda>h. \<exists>n. h = H @ n \<and> precedes VM D n \<and> VM \<in> set n"
  let ?R2 = "\<lambda>h. \<exists>n. h = H @ n \<and> precedes VM D n \<and> n \<noteq> []
              \<and> last n = (Interfaces_Delete groupName nicName, None)"
  let ?E = "\<lambda>(k::halt) h. \<exists>n. h = H @ n \<and> precedes VM D n"
  have grow0: "?R0 h \<Longrightarrow> \<not> D (fst ev) \<Longrightarrow> ?R0 (h @ [ev])" for h ev
    by (auto simp: precedes_snoc)
  have grow1: "?R1 h \<Longrightarrow> ?R1 (h @ [ev])" for h ev
    by (auto simp: precedes_snoc)
  have stop0: "?R0 h \<Longrightarrow> ?E k h" for h k by auto
  have stop1: "?R1 h \<Longrightarrow> ?E k h" for h k by auto
  have notD: "\<not> D (Accounts_Create g n a)" "\<not> D (Groups_Delete g)"
    "\<not> D (VirtualMachines_Delete g n)" for g n a
    by (simp_all add: D_def)
  have in0: "inert ?R0 ?E"
    unfolding inert_def
  proof (intro conjI allI impI)
    fix h assume r: "?R0 h"
    show "?R0 (h @ [acct_ok])" by (rule grow0 [OF r]) (simp add: acct_ok_def notD)
  next
    fix h assume "?R0 h" then show "?E HPanic h" by (rule stop0)
  next
    fix h assume r: "?R0 h"
    have "?R0 (h @ [acct_ok])" by (rule grow0 [OF r]) (simp add: acct_ok_def notD)
    then show "?E HPanic (h @ [acct_ok])" by (rule stop0)
  next
    fix h e assume r: "?R0 h"
    have "?R0 (h @ [(Accounts_Create groupName accountName storageAccount, Some e)])"
      by (rule grow0 [OF r]) (simp add: notD)
    then have "?R0 ((h @ [(Accounts_Create groupName accountName storageAccount, Some e)])
        @ [(Groups_Delete groupName, None)])"
      by (rule grow0) (simp add: notD)
    then show "?E (HExit 1) (h @ [(Accounts_Create groupName accountName storageAccount, Some e),
                (Groups_Delete groupName, None)])"
      using stop0 by simp
  qed
  have in1: "inert ?R1 ?E"
    unfolding inert_def
  proof (intro conjI allI impI)
    fix h assume "?R1 h" then show "?R1 (h @ [acct_ok])" by (rule grow1)
  next
    fix h assume "?R1 h" then show "?E HPanic h" by (rule stop1)
  next
    fix h assume "?R1 h"
    then have "?R1 (h @ [acct_ok])" by (rule grow1)
    then show "?E HPanic (h @ [acct_ok])" by (rule stop1)
  next
    fix h e assume "?R1 h"
    then have "?R1 (h @ [(Accounts_Create groupName accountName storageAccount, Some e)])"
      by (rule grow1)
    then have "?R1 ((h @ [(Accounts_Create groupName accountName storageAccount, Some e)])
        @ [(Groups_Delete groupName, None)])"
      by (rule grow1)
    then show "?E (HExit 1) (h @ [(Accounts_Create groupName accountName storageAccount, Some e),
                (Groups_Delete groupName, None)])"
      using stop1 by simp
  qed
  have clean0: "?R0 h \<Longrightarrow> ?E k (h @ ev # cleanup v)" if "\<not> D (fst ev)" for h ev k
  proof -
    assume r: "?R0 h"
    have a: "?R0 (h @ [ev])" by (rule grow0 [OF r that])
    show ?thesis
    proof (cases v)
      case Sequential
      with a stop0 [of "h @ [ev]"] show ?thesis by (simp add: cleanup_def)
    next
      case Hardened
      from a have "?R0 ((h @ [ev]) @ [(Groups_Delete groupName, None)])"
        by (rule grow0) (simp add: notD)
      with Hardened stop0 [of "(h @ [ev]) @ [(Groups_Delete groupName, None)]"]
      show ?thesis by (simp add: cleanup_def)
    qed
  qed
  have clean1: "?R1 h \<Longrightarrow> ?E k (h @ ev # cleanup v)" for h ev k
  proof -
    assume "?R1 h"
    then have a: "?R1 (h @ [ev])" by (rule grow1)
    show ?thesis
    proof (cases v)
      case Sequential
      with a stop1 [of "h @ [ev]"] show ?thesis by (simp add: cleanup_def)
    next
      case Hardened
      from a have "?R1 ((h @ [ev]) @ [(Groups_Delete groupName, None)])" by (rule grow1)
      with Hardened stop1 [of "(h @ [ev]) @ [(Groups_Delete groupName, None)]"]
      show ?thesis by (simp add: cleanup_def)
    qed
  qed
  have step01: "?R0 h \<Longrightarrow> ?R1 (h @ [VM])" for h
  proof -
    assume "?R0 h"
    then obtain n where n: "h = H @ n" "precedes VM D n" "\<forall>ev \<in> set n. \<not> D (fst ev)"
      by blast
    from n(2) have "precedes VM D (n @ [VM])"
      by (rule precedes_snoc) (simp add: VM_def notD)
    with n(1) show ?thesis by (intro exI [of _ "n @ [VM]"]) simp
  qed
  have step12: "?R1 h \<Longrightarrow> ?R2 (h @ [(Interfaces_Delete groupName nicName, None)])" for h
  proof -
    assume "?R1 h"
    then have "?R1 (h @ [(Interfaces_Delete groupName nicName, None)])" by (rule grow1)
    then obtain n where n: "h @ [(Interfaces_Delete groupName nicName, None)] = H @ n"
      "precedes VM D n" "VM \<in> set n" by blast
    from \<open>?R1 h\<close> obtain n0 where "h = H @ n0" by blast
    with n(1) have "n = n0 @ [(Interfaces_Delete groupName nicName, None)]" by simp
    with n show ?thesis by auto
  qed
  have "hoare (\<lambda>w. ?R0 (history w)) (deleteNIC v nicName) (\<lambda>_ w. ?R2 (history w))
          (\<lambda>k w. ?E k (history w))"
    unfolding deleteNIC_def
  proof (intro H_Print, rule H_call [where R' = ?R1, OF in0])
    fix h assume "?R0 h" then show "?R1 (h @ [(VirtualMachines_Delete groupName vmName, None)])"
      using step01 by (simp add: VM_def)
  next
    fix h e assume "?R0 h"
    then show "?E (HExit 1) (h @ (VirtualMachines_Delete groupName vmName, Some e) # cleanup v)"
      by (rule clean0 [rotated]) (simp add: notD)
  next
    show "hoare (\<lambda>w. ?R1 (history w))
            (seq (fmt_Print (tab @ ''Second, delete the NIC'' @ nl))
               (bind (call (Interfaces_Delete groupName nicName))
                  (\<lambda>err. onErrorFail v err ''Delete failed'')))
            (\<lambda>_ w. ?R2 (history w)) (\<lambda>k w. ?E k (history w))"
    proof (intro H_Print, rule H_call_end [where R' = ?R2, OF in1])
      fix h assume "?R1 h"
      then show "?R2 (h @ [(Interfaces_Delete groupName nicName, None)])" by (rule step12)
    next
      fix h e assume "?R1 h"
      then show "?E (HExit 1) (h @ (Interfaces_Delete groupName nicName, Some e) # cleanup v)"
        by (rule clean1)
    qed
  qed
  then show ?thesis
    by (rule hoare_weaken) (auto simp: precedes_Nil)
qed




















section \<open>Building the interface references\<close>

text \<open>
  Claim C1. Whenever the interfaces passed to \<open>buildNIRs\<close> are the created ones, that
  is, their names are \<open>nic1\<close>, \<open>nic2\<close> and \<open>nic3\<close> in any order, exactly one of the
  returned references has \<open>Primary\<close> set to true; the reference at each position
  carries the ID of the interface at that position, it is the primary one if that
  interface is named \<open>nic1\<close>, and has \<open>Primary\<close> set to false otherwise. This holds in
  both variants.
\<close>

theorem buildNIRs_one_primary:
  assumes "mset (map nic_Name nics) = mset (map Some nicNames)"
  shows "\<exists>rs w'. buildNIRs v nics w = (Ok rs, w') \<and> length rs = length nics
     \<and> (\<exists>!i. i < length rs \<and> nir_props (rs ! i) = Some \<lparr>nir_Primary = Some True\<rparr>)
     \<and> (\<forall>i < length rs.
           nir_ID (rs ! i) = nic_ID (nics ! i)
         \<and> (if nic_Name (nics ! i) = Some nicNameFrontEnd
            then nir_props (rs ! i) = Some \<lparr>nir_Primary = Some True\<rparr>
            else nir_props (rs ! i) = Some \<lparr>nir_Primary = Some False\<rparr>))"
proof -
  let ?names = "map nic_Name nics"
  have set_eq: "set ?names = set (map Some nicNames)"
    using assms by (rule mset_eq_setD)
  have named: "\<forall>nic \<in> set nics. nic_Name nic \<noteq> None"
  proof
    fix nic assume "nic \<in> set nics"
    then have "nic_Name nic \<in> set ?names" by simp
    with set_eq show "nic_Name nic \<noteq> None" by auto
  qed
  have "distinct (map Some nicNames)"
    by (simp add: nicNames_def nicNameFrontEnd_def nicNameMidTier_def nicNameBackEnd_def)
  with assms have dist: "distinct ?names"
    by (metis mset_eq_imp_distinct_iff)
  have "Some nicNameFrontEnd \<in> set ?names"
    using set_eq by (simp add: nicNames_def)
  then obtain k where k: "k < length nics" "nic_Name (nics ! k) = Some nicNameFrontEnd"
    by (auto simp: in_set_conv_nth)
  have uniq: "j = k" if "j < length nics" "nic_Name (nics ! j) = Some nicNameFrontEnd" for j
  proof -
    from that k have "?names ! j = ?names ! k" "j < length ?names" "k < length ?names"
      by simp_all
    with dist show ?thesis by (simp only: nth_eq_iff_index_eq)
  qed
  from buildNIRs_named [OF named, of v w]
  obtain w' where run: "buildNIRs v nics w =
      (Ok (map (\<lambda>nic. \<lparr>nir_ID = nic_ID nic,
             nir_props = Some \<lparr>nir_Primary = Some (nic_Name nic = Some nicNameFrontEnd)\<rparr>\<rparr>) nics), w')"
    by blast
  let ?rs = "map (\<lambda>nic. \<lparr>nir_ID = nic_ID nic,
             nir_props = Some \<lparr>nir_Primary = Some (nic_Name nic = Some nicNameFrontEnd)\<rparr>\<rparr>) nics"
  have one: "\<exists>!i. i < length ?rs \<and> nir_props (?rs ! i) = Some \<lparr>nir_Primary = Some True\<rparr>"
  proof (rule ex1I [of _ k])
    show "k < length ?rs \<and> nir_props (?rs ! k) = Some \<lparr>nir_Primary = Some True\<rparr>"
      using k by simp
  next
    fix j assume "j < length ?rs \<and> nir_props (?rs ! j) = Some \<lparr>nir_Primary = Some True\<rparr>"
    then have "j < length nics" "nic_Name (nics ! j) = Some nicNameFrontEnd"
      by auto
    then show "j = k" by (rule uniq)
  qed
  have each: "\<forall>i < length ?rs.
           nir_ID (?rs ! i) = nic_ID (nics ! i)
         \<and> (if nic_Name (nics ! i) = Some nicNameFrontEnd
            then nir_props (?rs ! i) = Some \<lparr>nir_Primary = Some True\<rparr>
            else nir_props (?rs ! i) = Some \<lparr>nir_Primary = Some False\<rparr>)"
    by simp
  from run one each show ?thesis
    by (intro exI [of _ ?rs] exI [of _ w']) simp
qed

theorem buildNIRs_one_primary_witness:
  "mset (map nic_Name [named ''nic3'', named ''nic1'', named ''nic2'']) = mset (map Some nicNames)
   \<and> (\<exists>rs w'. buildNIRs Sequential [named ''nic3'', named ''nic1'', named ''nic2''] world0 = (Ok rs, w')
        \<and> length rs = 3
        \<and> nir_props (rs ! 1) = Some \<lparr>nir_Primary = Some True\<rparr>
        \<and> nir_props (rs ! 0) = Some \<lparr>nir_Primary = Some False\<rparr>
        \<and> nir_props (rs ! 2) = Some \<lparr>nir_Primary = Some False\<rparr>)"
proof -
  let ?nics = "[named ''nic3'', named ''nic1'', named ''nic2'']"
  have h: "mset (map nic_Name ?nics) = mset (map Some nicNames)"
    by (simp add: named_def nicNames_def nicNameFrontEnd_def nicNameMidTier_def nicNameBackEnd_def)
  from buildNIRs_one_primary [OF h, of Sequential world0]
  obtain rs w' where r: "buildNIRs Sequential ?nics world0 = (Ok rs, w')" "length rs = length ?nics"
    and e: "\<forall>i < length rs.
           nir_ID (rs ! i) = nic_ID (?nics ! i)
         \<and> (if nic_Name (?nics ! i) = Some nicNameFrontEnd
            then nir_props (rs ! i) = Some \<lparr>nir_Primary = Some True\<rparr>
            else nir_props (rs ! i) = Some \<lparr>nir_Primary = Some False\<rparr>)"
    by blast
  from r have l: "length rs = 3" by simp
  from e l have "nir_props (rs ! 1) = Some \<lparr>nir_Primary = Some True\<rparr>"
    "nir_props (rs ! 0) = Some \<lparr>nir_Primary = Some False\<rparr>"
    "nir_props (rs ! 2) = Some \<lparr>nir_Primary = Some False\<rparr>"
    by (auto simp: named_def nicNameFrontEnd_def dest: spec [of _ 0] spec [of _ 1] spec [of _ 2])
  with h r l show ?thesis by blast
qed




section \<open>Listing the interfaces\<close>

text \<open>
  Claim C9. \<open>printNIC\<close> dereferences the interface's \<open>Name\<close>, \<open>Location\<close>,
  \<open>EnableIPForwarding\<close>, \<open>MacAddress\<close>, the \<open>PrivateIPAddress\<close> of its first IP
  configuration and the \<open>ID\<close> of that configuration's \<open>Subnet\<close> without a check: it
  either completes or panics, and it completes exactly when every one of these fields
  (and every pointer on the path to it) is present. \<open>listNICs\<close> calls it on the
  interfaces the list call returned, so when that call succeeds with a non-empty list,
  \<open>listNICs\<close> panics exactly when \<open>printNIC\<close> panics on one of them.
\<close>

theorem printNIC_needs_every_field:
  "(fst (printNIC nic w) = Ok () \<or> fst (printNIC nic w) = Panicked)
   \<and> (fst (printNIC nic w) = Ok () \<longleftrightarrow>
       (\<exists>name loc p fwd mac cs cp ip sn sid.
            nic_Name nic = Some name \<and> nic_Location nic = Some loc \<and> nic_props nic = Some p
          \<and> EnableIPForwarding p = Some fwd \<and> MacAddress p = Some mac
          \<and> IPConfigurations p = Some cs \<and> cs \<noteq> [] \<and> ipc_props (cs ! 0) = Some cp
          \<and> PrivateIPAddress cp = Some ip \<and> ipc_Subnet cp = Some sn \<and> subnet_ID sn = Some sid))
   \<and> (pending w = [] \<and> err_of (api w) (history w) (Interfaces_List groupName) = None
       \<and> nics_of (api w) (history w) (Interfaces_List groupName) = Some nics \<and> nics \<noteq> []
      \<longrightarrow> (fst (listNICs v w) = Panicked \<longleftrightarrow> (\<exists>nic \<in> set nics. fst (printNIC nic w) = Panicked)))"
proof (intro conjI impI)
  show "fst (printNIC nic w) = Ok () \<or> fst (printNIC nic w) = Panicked"
    by (rule printNIC_Ok_or_Panicked)
next
  show "fst (printNIC nic w) = Ok () \<longleftrightarrow>
       (\<exists>name loc p fwd mac cs cp ip sn sid.
            nic_Name nic = Some name \<and> nic_Location nic = Some loc \<and> nic_props nic = Some p
          \<and> EnableIPForwarding p = Some fwd \<and> MacAddress p = Some mac
          \<and> IPConfigurations p = Some cs \<and> cs \<noteq> [] \<and> ipc_props (cs ! 0) = Some cp
          \<and> PrivateIPAddress cp = Some ip \<and> ipc_Subnet cp = Some sn \<and> subnet_ID sn = Some sid)"
    unfolding printNIC_result [of nic w] by (simp split: if_split)
next
  assume a: "pending w = [] \<and> err_of (api w) (history w) (Interfaces_List groupName) = None
       \<and> nics_of (api w) (history w) (Interfaces_List groupName) = Some nics \<and> nics \<noteq> []"
  let ?w1 = "w\<lparr>stdout := stdout w @ [''Listing NICs'' @ nl]\<rparr>"
  let ?w2 = "?w1\<lparr>history := history ?w1 @ [(Interfaces_List groupName, None)]\<rparr>"
  from a have "listNICs v w = for_range (\<lambda>_ nic _. printNIC nic) nics 0 () ?w2"
    by (simp add: listNICs_def seq_Print call_get_idle issue_get_def bind_def
        onErrorFail_None seq_ret)
  then show "fst (listNICs v w) = Panicked \<longleftrightarrow> (\<exists>nic \<in> set nics. fst (printNIC nic w) = Panicked)"
    using printNIC_any_world [of _ ?w2 w] by (simp add: printNIC_loop)
qed

theorem printNIC_needs_every_field_witness:
  "pending lister = [] \<and> err_of (api lister) (history lister) (Interfaces_List groupName) = None
   \<and> nics_of (api lister) (history lister) (Interfaces_List groupName) = Some [named ''nic1'', nameless]
   \<and> [named ''nic1'', nameless] \<noteq> []
   \<and> fst (printNIC nameless lister) = Panicked
   \<and> fst (listNICs Hardened lister) = Panicked"
proof -
  have h: "pending lister = [] \<and> err_of (api lister) (history lister) (Interfaces_List groupName) = None
   \<and> nics_of (api lister) (history lister) (Interfaces_List groupName) = Some [named ''nic1'', nameless]
   \<and> [named ''nic1'', nameless] \<noteq> []"
    by (simp add: lister_def start_def fake_def)
  have p: "fst (printNIC nameless lister) = Panicked"
    by (simp add: printNIC_def nameless_def bind_deref)
  from printNIC_needs_every_field [of nameless lister "[named ''nic1'', nameless]" Hardened] h p
  show ?thesis by auto
qed

section \<open>Attaching a public IP address\<close>

text \<open>
  Claim C8, as amended. \<open>updateNICwithPIP\<close> finds the interface by a linear scan that
  compares names. Take a non-empty list in which every interface has a name and none
  of the names equals the given one, a public IP address that has a name, a first
  interface that has a first IP configuration with its properties, and no goroutine
  outstanding (as when \<open>main\<close> calls it). Then the scan fails silently: the index
  stays at zero, the first interface of the list gets the public IP address and the
  primary flag in its first IP configuration, and exactly that interface is pushed by
  one create-or-update call under the given name. The call's error, if any, is fatal
  as everywhere; otherwise the list with its first interface replaced is the result.
\<close>

theorem updateNICwithPIP_falls_back_to_first:
  assumes "nics \<noteq> []"
    and "\<forall>nic \<in> set nics. \<exists>n. nic_Name nic = Some n \<and> n \<noteq> nicName"
    and "pip_Name pip = Some pname"
    and "nic_props (nics ! 0) = Some p" and "IPConfigurations p = Some cs"
    and "cs \<noteq> []" and "ipc_props (cs ! 0) = Some cp"
    and "pending w = []"
  shows "\<exists>nic' e w'.
      nic' = (nics ! 0)\<lparr>nic_props := Some (p\<lparr>IPConfigurations :=
               Some (cs[0 := (cs ! 0)\<lparr>ipc_props :=
                 Some (cp\<lparr>ipc_PublicIPAddress := Some pip, ipc_Primary := Some True\<rparr>)\<rparr>])\<rparr>)\<rparr>
    \<and> e = err_of (api w) (history w) (Interfaces_CreateOrUpdate groupName nicName nic')
    \<and> history w' = history w @ (Interfaces_CreateOrUpdate groupName nicName nic', e)
          # (if e \<noteq> None \<and> v = Hardened then [(Groups_Delete groupName, None)] else [])
    \<and> updateNICwithPIP v nicName nics pip w =
          (if e = None then Ok (nics[0 := nic']) else Exited 1, w')"
proof -
  let ?w1 = "w\<lparr>stdout := stdout w @
      [''Update NIC '' @ sq @ nicName @ sq @ '' with PIP '' @ sq @ pname @ sq @ nl]\<rparr>"
  let ?nic1 = "(nics ! 0)\<lparr>nic_props := Some (p\<lparr>IPConfigurations :=
            Some (cs[0 := (cs ! 0)\<lparr>ipc_props := Some (cp\<lparr>ipc_PublicIPAddress := Some pip\<rparr>)\<rparr>])\<rparr>)\<rparr>"
  let ?nic2 = "(nics ! 0)\<lparr>nic_props := Some (p\<lparr>IPConfigurations :=
               Some (cs[0 := (cs ! 0)\<lparr>ipc_props :=
                 Some (cp\<lparr>ipc_PublicIPAddress := Some pip, ipc_Primary := Some True\<rparr>)\<rparr>])\<rparr>)\<rparr>"
  let ?c = "Interfaces_CreateOrUpdate groupName nicName ?nic2"
  let ?e = "err_of (api w) (history w) ?c"
  let ?w2 = "?w1\<lparr>history := history w @ [(?c, ?e)]\<rparr>"
  have s1: "with_ipconfig0_props (\<lambda>cp. cp\<lparr>ipc_PublicIPAddress := Some pip\<rparr>) (nics ! 0) ?w1 = (Ok ?nic1, ?w1)"
    using assms by (simp add: with_ipconfig0_props_present)
  have s2: "with_ipconfig0_props (\<lambda>cp. cp\<lparr>ipc_Primary := Some True\<rparr>) ?nic1 ?w1 = (Ok ?nic2, ?w1)"
    using assms
    by (simp add: with_ipconfig0_props_present [where p = "p\<lparr>IPConfigurations :=
            Some (cs[0 := (cs ! 0)\<lparr>ipc_props := Some (cp\<lparr>ipc_PublicIPAddress := Some pip\<rparr>)\<rparr>])\<rparr>"
          and cs = "cs[0 := (cs ! 0)\<lparr>ipc_props := Some (cp\<lparr>ipc_PublicIPAddress := Some pip\<rparr>)\<rparr>]"
          and cp = "cp\<lparr>ipc_PublicIPAddress := Some pip\<rparr>"])
  have s3: "call ?c ?w1 = (Ok ?e, ?w2)"
    using assms by (simp add: call_idle issue_apply)
  have run: "updateNICwithPIP v nicName nics pip w =
      bind (ret ?e) (\<lambda>err. seq (onErrorFail v err ''CreateOrUpdate failed'') (ret (nics[0 := ?nic2]))) ?w2"
    using assms s1 s2 s3
    by (simp add: updateNICwithPIP_def findNIC_no_match bind_Ok bind_deref seq_Print bind_index
        bind_ret bind_Pair_Ok)
  show ?thesis
  proof (cases ?e)
    case None
    with run have "updateNICwithPIP v nicName nics pip w = (Ok (nics[0 := ?nic2]), ?w2)"
      by (simp add: bind_ret onErrorFail_None seq_ret ret_apply)
    with None show ?thesis by simp
  next
    case (Some e)
    let ?w3 = "?w2\<lparr>stdout := stdout ?w2 @ [''CreateOrUpdate failed'' @ '': '' @ e @ nl],
                  history := history ?w2 @ (case v of Sequential \<Rightarrow> [] | Hardened \<Rightarrow> [(Groups_Delete groupName, None)])\<rparr>"
    from run Some have "updateNICwithPIP v nicName nics pip w = (Exited 1, ?w3)"
      by (simp add: bind_ret seq_onErrorFail_Some)
    with Some show ?thesis by (cases v) simp_all
  qed
qed

theorem updateNICwithPIP_falls_back_to_first_witness:
  "[fetched ''nic2'', fetched ''nic3''] \<noteq> []
   \<and> nic_Name (fetched ''nic2'') = Some ''nic2'' \<and> ''nic2'' \<noteq> nicNameFrontEnd
   \<and> nic_Name (fetched ''nic3'') = Some ''nic3'' \<and> ''nic3'' \<noteq> nicNameFrontEnd
   \<and> pip_Name (fetched_pip ''pip2'') = Some ''pip2''
   \<and> pending world0 = []
   \<and> (\<exists>nics' w' p cs cp.
         updateNICwithPIP Sequential nicNameFrontEnd [fetched ''nic2'', fetched ''nic3'']
           (fetched_pip ''pip2'') world0 = (Ok nics', w')
       \<and> length nics' = 2 \<and> nics' ! 1 = fetched ''nic3''
       \<and> nic_Name (nics' ! 0) = Some ''nic2''
       \<and> nic_props (nics' ! 0) = Some p \<and> IPConfigurations p = Some cs
       \<and> ipc_props (cs ! 0) = Some cp
       \<and> ipc_PublicIPAddress cp = Some (fetched_pip ''pip2'') \<and> ipc_Primary cp = Some True
       \<and> history w' = [(Interfaces_CreateOrUpdate groupName nicNameFrontEnd (nics' ! 0), None)])"
proof -
  let ?nics = "[fetched ''nic2'', fetched ''nic3'']"
  let ?p = "\<lparr>EnableIPForwarding = Some False, MacAddress = Some ''00-0D-3A'',
                IPConfigurations = Some
                  [\<lparr>ipc_Name = Some ''IPconfig'',
                    ipc_props = Some
                      \<lparr>PrivateIPAddress = Some ''172.16.1.4'',
                       PrivateIPAllocationMethod = ''Dynamic'',
                       ipc_Subnet = Some \<lparr>subnet_ID = Some ''/subnets/s'', subnet_Name = None,
                                          subnet_props = None\<rparr>,
                       ipc_Primary = None, ipc_PublicIPAddress = None\<rparr>\<rparr>]\<rparr>"
  let ?cs = "[\<lparr>ipc_Name = Some ''IPconfig'',
                    ipc_props = Some
                      \<lparr>PrivateIPAddress = Some ''172.16.1.4'',
                       PrivateIPAllocationMethod = ''Dynamic'',
                       ipc_Subnet = Some \<lparr>subnet_ID = Some ''/subnets/s'', subnet_Name = None,
                                          subnet_props = None\<rparr>,
                       ipc_Primary = None, ipc_PublicIPAddress = None\<rparr>\<rparr>]"
  let ?cp = "\<lparr>PrivateIPAddress = Some ''172.16.1.4'',
                       PrivateIPAllocationMethod = ''Dynamic'',
                       ipc_Subnet = Some \<lparr>subnet_ID = Some ''/subnets/s'', subnet_Name = None,
                                          subnet_props = None\<rparr>,
                       ipc_Primary = None, ipc_PublicIPAddress = None\<rparr>"
  have h1: "?nics \<noteq> []" by simp
  have h2: "\<forall>nic \<in> set ?nics. \<exists>n. nic_Name nic = Some n \<and> n \<noteq> nicNameFrontEnd"
    by (simp add: fetched_def fake_def nicNameFrontEnd_def)
  have h3: "pip_Name (fetched_pip ''pip2'') = Some ''pip2''"
    by (simp add: fetched_pip_def fake_def)
  have h4: "nic_props (?nics ! 0) = Some ?p" by (simp add: fetched_def fake_def)
  have h5: "IPConfigurations ?p = Some ?cs" by simp
  have h6: "?cs \<noteq> []" by simp
  have h7: "ipc_props (?cs ! 0) = Some ?cp" by simp
  have h8: "pending world0 = []" by (simp add: world0_def start_def)
  have e: "err_of (api world0) h c = None" for h c
    by (simp add: world0_def start_def fake_def)
  have h0: "history world0 = []" by (simp add: world0_def start_def)
  have n: "nic_Name (fetched ''nic2'') = Some ''nic2'' \<and> ''nic2'' \<noteq> nicNameFrontEnd
   \<and> nic_Name (fetched ''nic3'') = Some ''nic3'' \<and> ''nic3'' \<noteq> nicNameFrontEnd"
    by (simp add: fetched_def fake_def nicNameFrontEnd_def)
  from updateNICwithPIP_falls_back_to_first [OF h1 h2 h3 h4 h5 h6 h7 h8, of Sequential]
  obtain nic' w' where
    a: "nic' = (?nics ! 0)\<lparr>nic_props := Some (?p\<lparr>IPConfigurations :=
               Some (?cs[0 := (?cs ! 0)\<lparr>ipc_props :=
                 Some (?cp\<lparr>ipc_PublicIPAddress := Some (fetched_pip ''pip2''), ipc_Primary := Some True\<rparr>)\<rparr>])\<rparr>)\<rparr>"
    and b: "history w' = [(Interfaces_CreateOrUpdate groupName nicNameFrontEnd nic', None)]"
    and c: "updateNICwithPIP Sequential nicNameFrontEnd ?nics (fetched_pip ''pip2'') world0
          = (Ok (?nics[0 := nic']), w')"
    by (auto simp: e h0)
  have "(?nics[0 := nic']) ! 0 = nic'" "(?nics[0 := nic']) ! 1 = fetched ''nic3''"
    "length (?nics[0 := nic']) = 2"
    by simp_all
  moreover have "nic_Name nic' = Some ''nic2''" using a n by simp
  moreover have "nic_props nic' = Some (?p\<lparr>IPConfigurations :=
               Some (?cs[0 := (?cs ! 0)\<lparr>ipc_props :=
                 Some (?cp\<lparr>ipc_PublicIPAddress := Some (fetched_pip ''pip2''), ipc_Primary := Some True\<rparr>)\<rparr>])\<rparr>)"
    using a by simp
  ultimately show ?thesis using h1 n h3 h8 b c
    by (intro conjI exI [of _ "?nics[0 := nic']"] exI [of _ w']
        exI [of _ "?p\<lparr>IPConfigurations :=
               Some (?cs[0 := (?cs ! 0)\<lparr>ipc_props :=
                 Some (?cp\<lparr>ipc_PublicIPAddress := Some (fetched_pip ''pip2''), ipc_Primary := Some True\<rparr>)\<rparr>])\<rparr>"]
        exI [of _ "?cs[0 := (?cs ! 0)\<lparr>ipc_props :=
                 Some (?cp\<lparr>ipc_PublicIPAddress := Some (fetched_pip ''pip2''), ipc_Primary := Some True\<rparr>)\<rparr>]"]
        exI [of _ "?cp\<lparr>ipc_PublicIPAddress := Some (fetched_pip ''pip2''), ipc_Primary := Some True\<rparr>"])
      simp_all
qed

text \<open>
  Without these provisions the claim fails: the scan dereferences every \<open>Name\<close>, the
  message printed before the update dereferences the name of the public IP address,
  and the update dereferences the path to the first IP configuration. With a \<open>nil\<close>
  in any of the three, for a non-empty list without a match, the function panics and
  nothing is pushed.
\<close>

theorem updateNICwithPIP_panics_on_absent_field:
  "fst (updateNICwithPIP Hardened nicNameFrontEnd [fetched ''nic2'', nameless] (fetched_pip ''pip2'') world0) = Panicked
   \<and> history (snd (updateNICwithPIP Hardened nicNameFrontEnd [fetched ''nic2'', nameless] (fetched_pip ''pip2'') world0)) = []
   \<and> fst (updateNICwithPIP Hardened nicNameFrontEnd [fetched ''nic2''] unnamed_pip world0) = Panicked
   \<and> history (snd (updateNICwithPIP Hardened nicNameFrontEnd [fetched ''nic2''] unnamed_pip world0)) = []
   \<and> fst (updateNICwithPIP Hardened nicNameFrontEnd [named ''nic2''] (fetched_pip ''pip2'') world0) = Panicked
   \<and> history (snd (updateNICwithPIP Hardened nicNameFrontEnd [named ''nic2''] (fetched_pip ''pip2'') world0)) = []"
  by (simp add: updateNICwithPIP_def findNIC_body_def fetched_def fetched_pip_def fake_def
      nameless_def named_def unnamed_pip_def nicNameFrontEnd_def bind_deref bind_index bind_ret
      bind_Pair_Ok bind_Pair_Panicked ret_apply seq_Print with_ipconfig0_props_def
      with_ipconfig0_def with_nic_props_def bind_assoc history_world0)

section \<open>Missing configuration\<close>

text \<open>
  Claim C7, as amended. If the subscription ID, the tenant ID, the client ID or the
  client secret is absent from the environment, \<open>example.go\<close> exits with status 1
  before it issues any remote call, and it prints one line. The line names the first
  missing variable, in the order in which \<open>init\<close> reads them (subscription, tenant,
  client, client secret), unless subscription and tenant are present and
  \<open>OAuthConfigForTenant\<close> fails: \<open>init\<close> calls it before it reads the client ID, and
  then the line reports that failure.
\<close>

theorem program_exits_on_missing_variable:
  assumes "env ''AZURE_SUBSCRIPTION_ID'' = [] \<or> env ''AZURE_TENANT_ID'' = []
         \<or> env ''AZURE_CLIENT_ID'' = [] \<or> env ''AZURE_CLIENT_SECRET'' = []"
  shows "fst (program (start r env oe te d)) = Exited 1
     \<and> history (snd (program (start r env oe te d))) = []
     \<and> stdout (snd (program (start r env oe te d))) =
        [if env ''AZURE_SUBSCRIPTION_ID'' = []
         then ''Missing environment variable AZURE_SUBSCRIPTION_ID'' @ nl
         else if env ''AZURE_TENANT_ID'' = []
         then ''Missing environment variable AZURE_TENANT_ID'' @ nl
         else case oe (env ''AZURE_TENANT_ID'') of
                Some e \<Rightarrow> ''OAuthConfigForTenant failed: '' @ e @ nl
              | None \<Rightarrow>
                  if env ''AZURE_CLIENT_ID'' = []
                  then ''Missing environment variable AZURE_CLIENT_ID'' @ nl
                  else ''Missing environment variable AZURE_CLIENT_SECRET'' @ nl]"
proof -
  let ?w = "start r env oe te d"
  have e: "environ ?w = env" "oauth_err ?w = oe" "stdout ?w = []" "history ?w = []"
    by (simp_all add: start_def)
  from assms have "environ ?w ''AZURE_SUBSCRIPTION_ID'' = [] \<or> environ ?w ''AZURE_TENANT_ID'' = []
         \<or> environ ?w ''AZURE_CLIENT_ID'' = [] \<or> environ ?w ''AZURE_CLIENT_SECRET'' = []"
    by (simp only: e)
  from init_missing [OF this] have "program ?w = (Exited 1, ?w\<lparr>stdout := stdout ?w @
      [if environ ?w ''AZURE_SUBSCRIPTION_ID'' = []
       then ''Missing environment variable AZURE_SUBSCRIPTION_ID'' @ nl
       else if environ ?w ''AZURE_TENANT_ID'' = []
       then ''Missing environment variable AZURE_TENANT_ID'' @ nl
       else case oauth_err ?w (environ ?w ''AZURE_TENANT_ID'') of
              Some e \<Rightarrow> ''OAuthConfigForTenant failed: '' @ e @ nl
            | None \<Rightarrow>
                if environ ?w ''AZURE_CLIENT_ID'' = []
                then ''Missing environment variable AZURE_CLIENT_ID'' @ nl
                else ''Missing environment variable AZURE_CLIENT_SECRET'' @ nl]\<rparr>)"
    unfolding program_def by (rule seq_Exited)
  then show ?thesis by (simp add: e)
qed

theorem program_exits_on_missing_variable_witness:
  "no_secret ''AZURE_CLIENT_SECRET'' = []
   \<and> fst (program (start fake no_secret (\<lambda>_. None) (\<lambda>_ _. None) 0)) = Exited 1
   \<and> history (snd (program (start fake no_secret (\<lambda>_. None) (\<lambda>_ _. None) 0))) = []
   \<and> stdout (snd (program (start fake no_secret (\<lambda>_. None) (\<lambda>_ _. None) 0))) =
        [''Missing environment variable AZURE_CLIENT_SECRET'' @ nl]"
proof -
  have h: "no_secret ''AZURE_SUBSCRIPTION_ID'' = [] \<or> no_secret ''AZURE_TENANT_ID'' = []
         \<or> no_secret ''AZURE_CLIENT_ID'' = [] \<or> no_secret ''AZURE_CLIENT_SECRET'' = []"
    by (simp add: no_secret_def)
  have v: "no_secret ''AZURE_SUBSCRIPTION_ID'' \<noteq> []" "no_secret ''AZURE_TENANT_ID'' \<noteq> []"
    "no_secret ''AZURE_CLIENT_ID'' \<noteq> []" "no_secret ''AZURE_CLIENT_SECRET'' = []"
    by (simp_all add: no_secret_def)
  from program_exits_on_missing_variable [OF h, of fake "\<lambda>_. None" "\<lambda>_ _. None" 0]
  show ?thesis by (simp add: v)
qed

text \<open>
  The claim as stated fails where the client ID is missing and the tenant ID is
  rejected: the program exits with status 1 and no remote call, but what it prints
  does not name the missing variable.
\<close>

theorem program_reports_tenant_before_client:
  "no_client ''AZURE_CLIENT_ID'' = []
   \<and> fst (program (start fake no_client (\<lambda>t. if t = ''%zz'' then Some ''invalid URL escape'' else None) (\<lambda>_ _. None) 0)) = Exited 1
   \<and> stdout (snd (program (start fake no_client (\<lambda>t. if t = ''%zz'' then Some ''invalid URL escape'' else None) (\<lambda>_ _. None) 0))) =
        [''OAuthConfigForTenant failed: invalid URL escape'' @ nl]"
  by (simp add: program_def init_def start_def no_client_def bind_getEnvVarOrExit
      bind_OAuthConfigForTenant seq_onErrorFail_Some seq_Exited)

section \<open>The main flow\<close>



text \<open>
  Claim C5. In a run of \<open>main\<close> of either variant, from a fresh process and against any
  remote service and scheduling, every creation of the virtual machine in the history
  of calls comes after a storage-account creation that returned without error: in the
  sequential variant by program order, in the hardened variant because \<open>wg.Wait\<close>
  returns only after the goroutine has called \<open>wg.Done\<close>, which it does after the
  account was created.
\<close>

theorem createVM_after_storage_account:
  assumes "j < length (history (snd (main v (start r env oe te d))))"
    and "is_createVM (fst (history (snd (main v (start r env oe te d))) ! j))"
  shows "\<exists>i<j. history (snd (main v (start r env oe te d))) ! i
           = (Accounts_Create groupName accountName storageAccount, None)"
  using main_vm_after_acct [of v r env oe te d] assms
  by (simp add: vm_after_acct_def precedes_def acct_ok_def)

theorem createVM_after_storage_account_witness:
  "17 < length (history (snd (main Hardened wquota)))
   \<and> is_createVM (fst (history (snd (main Hardened wquota)) ! 17))
   \<and> history (snd (main Hardened wquota)) ! 6
       = (Accounts_Create groupName accountName storageAccount, None)
   \<and> (\<exists>i<17. history (snd (main Hardened wquota)) ! i
           = (Accounts_Create groupName accountName storageAccount, None))"
proof -
  have a: "17 < length (history (snd (main Hardened wquota)))"
    by code_simp
  have b: "is_createVM (fst (history (snd (main Hardened wquota)) ! 17))"
    by code_simp
  have c: "history (snd (main Hardened wquota)) ! 6
       = (Accounts_Create groupName accountName storageAccount, None)"
    by code_simp
  from a b createVM_after_storage_account [of 17 Hardened quota env0 "\<lambda>_. None" "\<lambda>_ _. None" 5]
  have "\<exists>i<17. history (snd (main Hardened wquota)) ! i
           = (Accounts_Create groupName accountName storageAccount, None)"
    by (simp add: wquota_def)
  with a b c show ?thesis by simp
qed

section \<open>Deleting an interface\<close>

text \<open>
  Claim C4. Whatever the world \<open>deleteNIC\<close> starts in and however its calls end, among
  the calls it adds to the history every deletion of the named interface comes
  strictly after a deletion of the virtual machine that returned without error; and
  when \<open>deleteNIC\<close> returns, the deletion of the interface is the last call it
  issued.
\<close>

theorem deleteNIC_deletes_VM_first:
  "\<exists>new. history (snd (deleteNIC v nicName w)) = history w @ new
     \<and> (\<forall>j < length new. fst (new ! j) = Interfaces_Delete groupName nicName
           \<longrightarrow> (\<exists>i < j. new ! i = (VirtualMachines_Delete groupName vmName, None)))
     \<and> (\<forall>u. fst (deleteNIC v nicName w) = Ok u
           \<longrightarrow> new \<noteq> [] \<and> last new = (Interfaces_Delete groupName nicName, None))"
proof -
  obtain res w' where r: "deleteNIC v nicName w = (res, w')"
    by (cases "deleteNIC v nicName w")
  have "history w = history w" ..
  from hoareD [OF deleteNIC_order [of "history w" v nicName], of w, OF this] r
  show ?thesis
    by (cases res) (auto simp: precedes_def)
qed

theorem deleteNIC_deletes_VM_first_witness:
  "fst (deleteNIC Hardened nicNameMidTier world0) = Ok ()
   \<and> 1 < length (history (snd (deleteNIC Hardened nicNameMidTier world0)))
   \<and> fst (history (snd (deleteNIC Hardened nicNameMidTier world0)) ! 1)
       = Interfaces_Delete groupName nicNameMidTier
   \<and> history (snd (deleteNIC Hardened nicNameMidTier world0)) ! 0
       = (VirtualMachines_Delete groupName vmName, None)"
proof -
  let ?H = "history (snd (deleteNIC Hardened nicNameMidTier world0))"
  have a: "fst (deleteNIC Hardened nicNameMidTier world0) = Ok ()" by code_simp
  have b: "1 < length ?H" by code_simp
  have c: "fst (?H ! 1) = Interfaces_Delete groupName nicNameMidTier" by code_simp
  from deleteNIC_deletes_VM_first [of Hardened nicNameMidTier world0]
  obtain new where n: "?H = history world0 @ new"
    and o: "\<forall>j < length new. fst (new ! j) = Interfaces_Delete groupName nicNameMidTier
           \<longrightarrow> (\<exists>i < j. new ! i = (VirtualMachines_Delete groupName vmName, None))"
    by blast
  from n have "new = ?H" by (simp add: history_world0)
  with o have "1 < length ?H \<longrightarrow> fst (?H ! 1) = Interfaces_Delete groupName nicNameMidTier
      \<longrightarrow> (\<exists>i < 1. ?H ! i = (VirtualMachines_Delete groupName vmName, None))"
    by blast
  with b c have "\<exists>i < 1. ?H ! i = (VirtualMachines_Delete groupName vmName, None)"
    by blast
  then have "?H ! 0 = (VirtualMachines_Delete groupName vmName, None)" by simp
  with a b c show ?thesis by simp
qed

section \<open>Creating the subnets\<close>



section \<open>Creating the interfaces\<close>



end
